theory Spec2Isabelle
  imports Complex_Main "HOL-Library.Log_Nat" "HOL-Library.Word"
begin

unbundle bit_operations_syntax

section \<open>The ASCII video page: rasterizer, seeker and export orchestrator\<close>

text \<open>
  The page component (the file with \<open>computeGrid\<close>, \<open>asciiFromVideo\<close>, \<open>clampTime\<close>,
  \<open>seekVideo\<close> and \<open>handleExport\<close>) is embedded function by function. A finite
  JavaScript number is a \<open>real\<close>, and every arithmetic operation of the source and
  every decimal literal that is not a binary fraction is rounded to double precision by
  \<open>fl\<close>. A number that the code tests for \<open>NaN\<close> or \<open>Infinity\<close> (the duration of a
  media element) has a type of its own. \<open>Math.max\<close>, \<open>Math.min\<close>, \<open>Math.floor\<close> and
  \<open>Math.ceil\<close> are exact on doubles, and so is \<open>Math.round x\<close>, which is
  \<open>\<lfloor>x + 1/2\<rfloor>\<close>, HOL's \<^const>\<open>round\<close>.
\<close>

subsection \<open>Double precision\<close>

text \<open>\<open>rne\<close> rounds to the nearest integer, a tie to the even one.\<close>

definition rne :: "real \<Rightarrow> int" where
  "rne y =
    (let f = \<lfloor>y\<rfloor>; d = y - of_int f
     in if d < 1/2 then f else if 1/2 < d then f + 1 else if even f then f else f + 1)"

text \<open>The binary exponent of a positive number: the \<open>e\<close> with \<open>2\<^sup>e \<le> x < 2\<^sup>e\<^sup>+\<^sup>1\<close>.\<close>

definition binade :: "real \<Rightarrow> int" where
  "binade x =
    (if 1 \<le> x then bitlen \<lfloor>x\<rfloor> - 1
     else (let k = bitlen \<lfloor>1 / x\<rfloor> - 1 in if x * 2 ^ nat k = 1 then - k else - k - 1))"

text \<open>
  Rounding to the nearest number with a 53-bit significand, ties to even, as IEEE 754
  binary64 does for every result in its normal range. The exponent is not bounded:
  overflow to \<open>Infinity\<close> and the gradual underflow below \<open>2\<^sup>-\<^sup>1\<^sup>0\<^sup>2\<^sup>2\<close> are not modelled.
\<close>

definition flpos :: "real \<Rightarrow> real" where
  "flpos x = (let u = 2 powi (binade x - 52) in of_int (rne (x / u)) * u)"

definition fl :: "real \<Rightarrow> real" where
  "fl x = (if x = 0 then 0 else if 0 < x then flpos x else - flpos (- x))"

subsection \<open>Constants and data\<close>

definition VIEWPORT_WIDTH :: real where
  "VIEWPORT_WIDTH = 960"

definition VIEWPORT_HEIGHT :: real where
  "VIEWPORT_HEIGHT = 540"

definition DEFAULT_ASPECT :: real where
  "DEFAULT_ASPECT = fl (VIEWPORT_WIDTH / VIEWPORT_HEIGHT)"

text \<open>The duration of a media element: a finite number, \<open>NaN\<close> (no metadata) or
  \<open>Infinity\<close> (an unbounded stream).\<close>

datatype jsnum = Num real | NaN | Infinity

text \<open>
  The part of an \<open>HTMLVideoElement\<close> the code reads and writes. \<open>picture v w h\<close> is the
  frame the element presents, as \<open>drawImage\<close> scales it into a \<open>w \<times> h\<close> surface and
  \<open>getImageData\<close> reads it back: the RGBA byte at each offset of the
  \<open>Uint8ClampedArray\<close>. The scaler is the browser's, so it is a field of the element.
\<close>

record video =
  videoWidth :: nat
  videoHeight :: nat
  duration :: jsnum
  currentTime :: real
  paused :: bool
  picture :: "nat \<Rightarrow> nat \<Rightarrow> nat \<Rightarrow> 8 word"

text \<open>The off-screen sampling surface. \<open>getContext\<close> yields a 2D context or \<open>null\<close>;
  the surface keeps its size and pixels between calls.\<close>

record canvas =
  hasContext :: bool
  canvasWidth :: nat
  canvasHeight :: nat
  pixels :: "nat \<Rightarrow> 8 word"

text \<open>A colour; the fields \<open>r\<close>, \<open>g\<close> and \<open>b\<close> of the source's colour objects.\<close>

record rgb =
  red :: int
  green :: int
  blue :: int

record Scheme =
  label :: string
  ident :: string
  foreground :: string
  accent :: string

definition COLOR_SCHEMES :: "Scheme list" where
  "COLOR_SCHEMES =
    [\<lparr>label = ''Matrix Green'', ident = ''matrix'', foreground = ''#33ff66'', accent = ''#00b140''\<rparr>,
     \<lparr>label = ''Amber'', ident = ''amber'', foreground = ''#ffbf00'', accent = ''#d17c00''\<rparr>,
     \<lparr>label = ''Monochrome'', ident = ''mono'', foreground = ''#f0f0f0'', accent = ''#aaaaaa''\<rparr>,
     \<lparr>label = ''Cyberpunk'', ident = ''cyber'', foreground = ''#00f6ff'', accent = ''#ff00f7''\<rparr>]"

record AsciiCell =
  char :: string
  color :: string
  brightness :: real

record grid =
  width :: int
  height :: int
  charWidth :: real
  charHeight :: real

record AsciiFrame = grid +
  rows :: "AsciiCell list list"

subsection \<open>Colour helpers\<close>

text \<open>\<open>parseInt(value, 16)\<close> on a string of hexadecimal digits: the value of the longest
  prefix of digits, \<open>None\<close> (\<open>NaN\<close>) when there is none. Signs, white space, a
  \<open>0x\<close> prefix and the rounding of values past 53 bits, which no colour of a scheme
  meets, are not modelled.\<close>

definition hexDigit :: "char \<Rightarrow> nat option" where
  "hexDigit c =
    (let n = of_char c :: nat in
     if 48 \<le> n \<and> n \<le> 57 then Some (n - 48)
     else if 97 \<le> n \<and> n \<le> 102 then Some (n - 87)
     else if 65 \<le> n \<and> n \<le> 70 then Some (n - 55)
     else None)"

fun hexPrefix :: "nat option \<Rightarrow> string \<Rightarrow> nat option" where
  "hexPrefix acc [] = acc"
| "hexPrefix acc (c # cs) =
    (case hexDigit c of
       None \<Rightarrow> acc
     | Some d \<Rightarrow> hexPrefix (Some ((case acc of None \<Rightarrow> 0 | Some a \<Rightarrow> a) * 16 + d)) cs)"

definition parseInt16 :: "string \<Rightarrow> nat option" where
  "parseInt16 s = hexPrefix None s"

text \<open>\<open>hex.replace("#", "")\<close> removes the first \<open>#\<close> only.\<close>

fun removeFirstHash :: "string \<Rightarrow> string" where
  "removeFirstHash [] = []"
| "removeFirstHash (c # cs) = (if c = CHR ''#'' then cs else c # removeFirstHash cs)"

text \<open>The shifts and masks work on the 32-bit integer of the parsed number; \<open>NaN\<close>
  converts to 0.\<close>

definition hexToRgb :: "string \<Rightarrow> rgb" where
  "hexToRgb hex =
    (let normalized = removeFirstHash hex;
         value = (if length normalized = 3 then concat (map (\<lambda>c. [c, c]) normalized) else normalized);
         int32 = (case parseInt16 value of None \<Rightarrow> 0 | Some n \<Rightarrow> word_of_nat n) :: 32 word
     in \<lparr>red = uint (signed_drop_bit 16 int32 AND 255),
         green = uint (signed_drop_bit 8 int32 AND 255),
         blue = uint (int32 AND 255)\<rparr>)"

definition mixColor :: "rgb \<Rightarrow> rgb \<Rightarrow> real \<Rightarrow> rgb" where
  "mixColor a b ratio =
    \<lparr>red = round (fl (fl (of_int (red a) * fl (1 - ratio)) + fl (of_int (red b) * ratio))),
     green = round (fl (fl (of_int (green a) * fl (1 - ratio)) + fl (of_int (green b) * ratio))),
     blue = round (fl (fl (of_int (blue a) * fl (1 - ratio)) + fl (of_int (blue b) * ratio)))\<rparr>"

text \<open>Decimal rendering of an integer, as a template literal prints an integral number.\<close>

function showNat :: "nat \<Rightarrow> string" where
  "showNat n =
    (if n < 10 then [''0123456789'' ! n] else showNat (n div 10) @ [''0123456789'' ! (n mod 10)])"
  by pat_completeness auto
termination
  by (relation "measure (\<lambda>n. n)") auto

definition showInt :: "int \<Rightarrow> string" where
  "showInt i = (if i < 0 then CHR ''-'' # showNat (nat (- i)) else showNat (nat i))"

definition rgbToCss :: "rgb \<Rightarrow> string" where
  "rgbToCss c =
    ''rgb('' @ showInt (red c) @ '', '' @ showInt (green c) @ '', '' @ showInt (blue c) @ '')''"

subsection \<open>Grid geometry\<close>

text \<open>\<open>computeGrid\<close> divides by \<open>charHeight\<close>; the model is the source's for every
  character size other than 0 (where JavaScript yields \<open>Infinity\<close> rows).\<close>

definition computeGrid :: "video \<Rightarrow> real \<Rightarrow> grid" where
  "computeGrid video charPixelSize =
    (let charWidth = max 1 (fl (charPixelSize * fl 0.62));
         charHeight = fl (charPixelSize * fl 1.2);
         videoAspect = (if videoWidth video \<noteq> 0 \<and> videoHeight video \<noteq> 0
                        then fl (real (videoWidth video) / real (videoHeight video))
                        else DEFAULT_ASPECT);
         rows = max 12 \<lfloor>fl (VIEWPORT_HEIGHT / charHeight)\<rfloor>;
         cols = max 16 \<lfloor>fl (fl (of_int rows * videoAspect) * fl (charHeight / charWidth))\<rfloor>
     in \<lparr>width = cols, height = rows, charWidth = charWidth, charHeight = charHeight\<rparr>)"

subsection \<open>Rasterizer\<close>

definition brightnessFor :: "real \<Rightarrow> real \<Rightarrow> real \<Rightarrow> real" where
  "brightnessFor r g b =
    fl (fl (fl (fl (fl 0.2126 * r) + fl (fl 0.7152 * g)) + fl (fl 0.0722 * b)) / 255)"

text \<open>The two clamps of \<open>asciiFromVideo\<close>, named after its local constants.\<close>

definition clampedContrast :: "real \<Rightarrow> real" where
  "clampedContrast contrast = max (fl 0.2) (min 2.5 contrast)"

definition adjusted :: "real \<Rightarrow> real \<Rightarrow> real" where
  "adjusted cc bright = max 0 (min 1 (fl (fl (fl (bright - 0.5) * cc) + 0.5)))"

text \<open>The body of the inner loop: the cell of the pixel at \<open>offset\<close> of \<open>data\<close>.
  \<open>charset[index] ?? " "\<close> is a space where the index is past the end.\<close>

definition cellAt :: "(nat \<Rightarrow> 8 word) \<Rightarrow> string \<Rightarrow> rgb \<Rightarrow> rgb \<Rightarrow> real \<Rightarrow> nat \<Rightarrow> AsciiCell" where
  "cellAt data charset accentRgb foregroundRgb cc offset =
    (let r = real (unat (data offset));
         g = real (unat (data (offset + 1)));
         b = real (unat (data (offset + 2)));
         bright = brightnessFor r g b;
         adj = adjusted cc bright;
         len = int (length charset);
         index = max 0 (min (len - 1) (round (fl (fl (1 - adj) * of_int (len - 1)))));
         ch = (if nat index < length charset then [charset ! nat index] else '' '');
         blended = mixColor accentRgb foregroundRgb adj
     in \<lparr>char = ch, color = rgbToCss blended, brightness = adj\<rparr>)"

text \<open>
  \<open>asciiFromVideo\<close> returns the surface as the call leaves it and the frame, \<open>None\<close>
  where the surface has no 2D context. Setting the size of the surface clears it;
  \<open>drawImage\<close> then covers all of it with the scaled picture of the video.
\<close>

definition asciiFromVideo ::
  "video \<Rightarrow> canvas \<Rightarrow> string \<Rightarrow> Scheme \<Rightarrow> real \<Rightarrow> real \<Rightarrow> canvas \<times> AsciiFrame option" where
  "asciiFromVideo video bufferCanvas charset scheme charPixelSize contrast =
    (let gr = computeGrid video charPixelSize in
     if \<not> hasContext bufferCanvas then (bufferCanvas, None)
     else
       let w = nat (width gr);
           h = nat (height gr);
           cleared = bufferCanvas\<lparr>canvasWidth := w, canvasHeight := h, pixels := (\<lambda>_. 0)\<rparr>;
           drawn = cleared\<lparr>pixels := picture video w h\<rparr>;
           data = pixels drawn;
           accentRgb = hexToRgb (accent scheme);
           foregroundRgb = hexToRgb (foreground scheme);
           cc = clampedContrast contrast;
           rws = map (\<lambda>y. map (\<lambda>x. cellAt data charset accentRgb foregroundRgb cc ((y * w + x) * 4))
                            [0..<w])
                     [0..<h]
       in (drawn,
           Some \<lparr>width = width gr, height = height gr, charWidth = charWidth gr,
                 charHeight = charHeight gr, rows = rws\<rparr>))"

subsection \<open>Seek clamp\<close>

definition clampTime :: "jsnum \<Rightarrow> real \<Rightarrow> real" where
  "clampTime duration' time =
    (case duration' of
       Num d \<Rightarrow> min (max time 0) (max 0 (fl (d - fl 0.001)))
     | _ \<Rightarrow> time)"

subsection \<open>Frame-accurate seek\<close>

text \<open>
  \<open>seekVideo\<close> builds a promise around three callbacks. Its synchronous part arms the
  800 ms timer, registers the \<open>seeked\<close> listener and runs the \<open>try\<close> block, in which
  \<open>video.pause()\<close> or the assignment to \<open>currentTime\<close> may throw. Afterwards the event
  loop dispatches \<open>seeked\<close> events and the timer. The state below holds the closure's
  variables: the \<open>resolved\<close> flag, whether the listener is registered, whether the timer
  is pending, and how the promise has settled.
\<close>

datatype settle = Pending | Resolved | Rejected string

datatype sync_throw = NoThrow | PauseThrows string | AssignThrows string

datatype seek_event = SeekedEvent | TimerEvent

record seek_state =
  element :: video
  resolved :: bool
  listening :: bool
  timer :: bool
  promise :: settle

definition seekCleanup :: "seek_state \<Rightarrow> seek_state" where
  "seekCleanup st = st\<lparr>listening := False, timer := False\<rparr>"

definition finish :: "seek_state \<Rightarrow> seek_state" where
  "finish st =
    (if resolved st then st
     else (let st1 = seekCleanup (st\<lparr>resolved := True\<rparr>)
           in st1\<lparr>element := (element st1)\<lparr>paused := True\<rparr>, promise := Resolved\<rparr>))"

definition fail :: "string \<Rightarrow> seek_state \<Rightarrow> seek_state" where
  "fail reason st =
    (if resolved st then st
     else (seekCleanup (st\<lparr>resolved := True\<rparr>))\<lparr>promise := Rejected reason\<rparr>)"

definition handleSeeked :: "seek_state \<Rightarrow> seek_state" where
  "handleSeeked st = finish st"

text \<open>The synchronous part of the executor.\<close>

definition seekStart :: "video \<Rightarrow> real \<Rightarrow> sync_throw \<Rightarrow> seek_state" where
  "seekStart video time thrown =
    (let target = clampTime (duration video) time;
         st = \<lparr>element = video, resolved = False, listening = True, timer = True, promise = Pending\<rparr>
     in case thrown of
          PauseThrows m \<Rightarrow> fail m st
        | AssignThrows m \<Rightarrow> fail m (st\<lparr>element := video\<lparr>paused := True\<rparr>\<rparr>)
        | NoThrow \<Rightarrow> st\<lparr>element := video\<lparr>paused := True, currentTime := target\<rparr>\<rparr>)"

text \<open>One turn of the event loop. The listener is registered with \<open>once\<close>; a cleared
  timer does not fire.\<close>

definition dispatch :: "seek_state \<Rightarrow> seek_event \<Rightarrow> seek_state" where
  "dispatch st ev =
    (case ev of
       SeekedEvent \<Rightarrow> (if listening st then handleSeeked (st\<lparr>listening := False\<rparr>) else st)
     | TimerEvent \<Rightarrow> (if timer st then finish (st\<lparr>timer := False\<rparr>) else st))"

definition seekVideo :: "video \<Rightarrow> real \<Rightarrow> sync_throw \<Rightarrow> seek_event list \<Rightarrow> seek_state" where
  "seekVideo video time thrown evs = foldl dispatch (seekStart video time thrown) evs"

subsection \<open>Export orchestrator\<close>

datatype EntitlementTier = free | premium

record TierConfig =
  fps :: nat
  minCharPixel :: nat
  maxCharPixel :: nat
  watermark :: "string option"

definition FREE_EXPORT_CONFIG :: TierConfig where
  "FREE_EXPORT_CONFIG =
    \<lparr>fps = 10, minCharPixel = 8, maxCharPixel = 12,
     watermark = Some ''create your ascii video at https://ascii.video''\<rparr>"

definition PREMIUM_EXPORT_CONFIG :: TierConfig where
  "PREMIUM_EXPORT_CONFIG = \<lparr>fps = 24, minCharPixel = 6, maxCharPixel = 12, watermark = None\<rparr>"

datatype ExportFormat = gif | mp4 | mov

datatype ExportStatus = Idle | Initializing | Sampling | Encoding | Delivering | Error | Done

record ExportState =
  status :: ExportStatus
  format :: "ExportFormat option"
  progress :: real
  message :: "string option"

fun OUTPUT_NAME :: "ExportFormat \<Rightarrow> string" where
  "OUTPUT_NAME gif = ''ascii-output.gif''"
| "OUTPUT_NAME mp4 = ''ascii-output.mp4''"
| "OUTPUT_NAME mov = ''ascii-output.mov''"

fun MIME_BY_FORMAT :: "ExportFormat \<Rightarrow> string" where
  "MIME_BY_FORMAT gif = ''image/gif''"
| "MIME_BY_FORMAT mp4 = ''video/mp4''"
| "MIME_BY_FORMAT mov = ''video/quicktime''"

text \<open>What \<open>handleExport\<close> reads from the component: the selected file, the entitlement,
  the style and the cached encoder of \<open>ffmpegRef\<close>.\<close>

record component =
  selectedFile :: bool
  entitlement :: EntitlementTier
  charset :: string
  chosenScheme :: Scheme
  charPixelRef :: real
  contrastRef :: real
  ffmpegRef :: bool

definition tierConfig :: "component \<Rightarrow> TierConfig" where
  "tierConfig cmp = (if entitlement cmp = premium then PREMIUM_EXPORT_CONFIG else FREE_EXPORT_CONFIG)"

definition isFreeTier :: "component \<Rightarrow> bool" where
  "isFreeTier cmp = (entitlement cmp \<noteq> premium)"

text \<open>A thrown value: an \<open>Error\<close> with its message, or anything else.\<close>

datatype thrown = JsError string | NonError

text \<open>
  How the priming of the sampling element goes. Its \<open>try\<close> block sets
  \<open>currentTime\<close> to 0, awaits \<open>play()\<close> and pauses; if any of these throws, its \<open>catch\<close>
  block sets \<open>currentTime\<close> to 0 again, and what that assignment throws leaves the
  outer \<open>try\<close>. A \<open>play()\<close> that never settles leaves the run hanging.
\<close>

datatype prime_outcome = PrimePlayed | PrimeCaught | PrimeRethrows thrown | PrimeHangs

text \<open>
  What the browser and the encoder do during one export, as the run meets them:
  whether \<open>ffmpeg.load()\<close> rejects; the sampling element once its metadata has loaded
  (\<open>None\<close>: its \<open>error\<close> event); how the priming goes; whether the element then has
  data for the current position and, if not, whether \<open>canplay\<close> ever fires; whether the
  export canvas and the fresh buffer canvas give a 2D context; for the sampling
  instant \<open>i\<close>, what the seek request throws, whether \<open>seeked\<close> arrives before the timer,
  and the picture then presented; whether \<open>canvasToUint8Array\<close> or
  \<open>ffmpeg.writeFile\<close> rejects for frame \<open>i\<close>; what \<open>ffmpeg.exec\<close> and
  \<open>ffmpeg.readFile\<close> throw; and for which names \<open>ffmpeg.deleteFile\<close> rejects. The
  calls of the encoder and the wait for the metadata are taken to settle.
\<close>

record browser =
  loadFails :: bool
  metadata :: "video option"
  priming :: prime_outcome
  hasCurrentData :: bool
  canplayFires :: bool
  exportContext :: bool
  bufferContext :: bool
  seekThrow :: "nat \<Rightarrow> sync_throw"
  seekedInTime :: "nat \<Rightarrow> bool"
  presented :: "nat \<Rightarrow> nat \<Rightarrow> nat \<Rightarrow> nat \<Rightarrow> 8 word"
  pngFails :: "nat \<Rightarrow> bool"
  writeFails :: "nat \<Rightarrow> bool"
  execThrows :: "thrown option"
  readThrows :: "thrown option"
  deleteFails :: "string \<Rightarrow> bool"

text \<open>
  The observable steps of a run, in order: updates of the export state, the calls made
  to the encoder (a delete with whether it succeeded), the download, and the timer that
  returns the state to idle. The status line, the console and the drawing of a frame
  onto the export canvas (glyphs batched by colour, watermark) change none of these and
  are left out.
\<close>

datatype event =
    SetExportState ExportState
  | WriteFile string
  | Exec "string list"
  | ReadFile string
  | DeleteFile string bool
  | Download string string
  | ScheduleIdle

text \<open>The variables declared before the \<open>try\<close>, the encoder reference, and the steps so
  far.\<close>

record locals =
  trace :: "event list"
  totalFrames :: nat
  outputName :: "string option"
  objectUrl :: bool
  ffmpegCurrent :: bool

datatype outcome = Returned | Threw thrown | Hung

definition padStart4 :: "string \<Rightarrow> string" where
  "padStart4 s = (if length s < 4 then replicate (4 - length s) CHR ''0'' @ s else s)"

definition frameName :: "nat \<Rightarrow> string" where
  "frameName index = ''frame_'' @ padStart4 (showNat index) @ ''.png''"

text \<open>\<open>ensureFfmpeg\<close>: the cached encoder, or a freshly loaded one stored in the
  reference; a failed load is rethrown with a fixed message.\<close>

definition ensureFfmpeg :: "bool \<Rightarrow> bool \<Rightarrow> thrown + bool" where
  "ensureFfmpeg ref loadFails' =
    (if ref then Inr ref
     else if loadFails' then
       Inl (JsError (''Failed to initialize video encoder. Please ensure your browser supports ''
                     @ ''SharedArrayBuffer and CORS headers are properly configured.''))
     else Inr True)"

text \<open>
  The sampling loop, over the indices still to visit. A rejected seek and a missing
  frame skip the instant (\<open>continue\<close>); a failure to produce or write the PNG is
  rethrown with the 1-based index. Awaiting a promise that never settles would leave
  the run hanging. The events the loop hands to a seek are \<open>seeked\<close>, if it arrives in
  time, and then the timer.
\<close>

fun sampleFrames ::
  "component \<Rightarrow> browser \<Rightarrow> ExportFormat \<Rightarrow> real \<Rightarrow> real \<Rightarrow> nat \<Rightarrow> nat list \<Rightarrow>
     video \<times> canvas \<times> event list \<Rightarrow> outcome \<times> event list" where
  "sampleFrames cmp env fmt dur step count [] (v, c, tr) = (Returned, tr)"
| "sampleFrames cmp env fmt dur step count (index # rest) (v, c, tr) =
    (let targetTime = clampTime (Num dur) (if step = 0 then 0 else fl (real index * step));
         sk = seekVideo v targetTime (seekThrow env index)
                (if seekedInTime env index then [SeekedEvent, TimerEvent] else [TimerEvent])
     in case promise sk of
          Pending \<Rightarrow> (Hung, tr)
        | Rejected reason \<Rightarrow> sampleFrames cmp env fmt dur step count rest (element sk, c, tr)
        | Resolved \<Rightarrow>
            (let v' = (element sk)\<lparr>picture := presented env index\<rparr>;
                 (c', frame) = asciiFromVideo v' c (charset cmp) (chosenScheme cmp)
                                 (charPixelRef cmp) (contrastRef cmp)
             in case frame of
                  None \<Rightarrow> sampleFrames cmp env fmt dur step count rest (v', c', tr)
                | Some f \<Rightarrow>
                    if pngFails env index then
                      (Threw (JsError (''Frame processing failed at frame '' @ showNat (index + 1))), tr)
                    else if writeFails env index then
                      (Threw (JsError (''Frame processing failed at frame '' @ showNat (index + 1))),
                       tr @ [WriteFile (frameName index)])
                    else
                      sampleFrames cmp env fmt dur step count rest
                        (v', c',
                         tr @ [WriteFile (frameName index),
                               SetExportState
                                 \<lparr>status = Sampling, format = Some fmt,
                                  progress = fl (fl 0.1 + fl (fl (real index / real count) * 0.5)),
                                  message = Some (''Captured frame '' @ showNat (index + 1) @ '' / ''
                                                  @ showNat count)\<rparr>])))"

definition encoderArgs :: "nat \<Rightarrow> ExportFormat \<Rightarrow> string \<Rightarrow> string list" where
  "encoderArgs fps' fmt outName =
    [''-framerate'', showNat fps', ''-i'', ''frame_%04d.png''] @
    (if fmt = gif then [''-vf'', ''scale=iw:ih:flags=lanczos'', ''-loop'', ''0'', outName]
     else if fmt = mov then [''-c:v'', ''libx264'', ''-pix_fmt'', ''yuv420p'', ''-movflags'', ''+faststart'', outName]
     else [''-c:v'', ''libx264'', ''-pix_fmt'', ''yuv420p'', outName])"

text \<open>From the check of the frame count to the end of the \<open>try\<close> block.\<close>

definition encodeAndDeliver :: "component \<Rightarrow> browser \<Rightarrow> ExportFormat \<Rightarrow> locals \<Rightarrow> outcome \<times> locals" where
  "encodeAndDeliver cmp env fmt l =
    (if totalFrames l = 0 then (Threw (JsError ''No frames captured for export''), l)
     else
       let outName = OUTPUT_NAME fmt;
           l1 = l\<lparr>outputName := Some outName,
                  trace := trace l @
                    [SetExportState \<lparr>status = Encoding, format = Some fmt, progress = fl 0.7,
                                     message = Some ''Encoding media''\<rparr>,
                     Exec (encoderArgs (fps (tierConfig cmp)) fmt outName)]\<rparr>
       in case execThrows env of
            Some e \<Rightarrow> (Threw e, l1)
          | None \<Rightarrow>
              let l2 = l1\<lparr>trace := trace l1 @
                         [SetExportState \<lparr>status = Delivering, format = Some fmt, progress = fl 0.9,
                                          message = Some ''Preparing download''\<rparr>,
                          ReadFile outName]\<rparr>
              in case readThrows env of
                   Some e \<Rightarrow> (Threw e, l2)
                 | None \<Rightarrow>
                     (Returned,
                      l2\<lparr>trace := trace l2 @
                           [Download (OUTPUT_NAME fmt) (MIME_BY_FORMAT fmt),
                            SetExportState \<lparr>status = Done, format = Some fmt, progress = 1,
                                            message = Some (''Exported '' @ OUTPUT_NAME fmt)\<rparr>,
                            ScheduleIdle]\<rparr>))"

text \<open>The sampling phase from the frame count on, entered with a finite positive
  duration and a primed element: the frame count, the truncation notice, the export
  context and the loop.\<close>

definition samplePhase ::
  "component \<Rightarrow> browser \<Rightarrow> ExportFormat \<Rightarrow> video \<Rightarrow> real \<Rightarrow> locals \<Rightarrow> outcome \<times> locals" where
  "samplePhase cmp env fmt samplingVideo dur l =
    (let fps' = fps (tierConfig cmp);
         maxFrames = (if isFreeTier cmp then 300 else 600) :: nat;
         idealFrames = nat \<lceil>fl (dur * real fps')\<rceil>;
         count = min idealFrames maxFrames;
         step = (if count > 1 then fl (dur / real (count - 1)) else 0);
         l1 = l\<lparr>totalFrames := count\<rparr>;
         l2 = (if idealFrames > count then
                 l1\<lparr>trace := trace l1 @
                      [SetExportState
                         \<lparr>status = Sampling, format = Some fmt, progress = fl 0.1,
                          message = Some (''Video truncated to '' @ showNat count
                                          @ '' frames for faster processing'')\<rparr>]\<rparr>
               else l1)
     in if \<not> exportContext env then (Threw (JsError ''Canvas context unavailable''), l2)
        else
          let bufferCanvas = \<lparr>hasContext = bufferContext env, canvasWidth = 300, canvasHeight = 150,
                              pixels = (\<lambda>_. 0)\<rparr>
          in case sampleFrames cmp env fmt dur step count [0..<count]
                    (samplingVideo, bufferCanvas, trace l2) of
               (Returned, tr) \<Rightarrow> encodeAndDeliver cmp env fmt (l2\<lparr>trace := tr\<rparr>)
             | (out, tr) \<Rightarrow> (out, l2\<lparr>trace := tr\<rparr>))"

text \<open>
  The priming of the sampling element and the wait for its first frame, between the
  check of the duration and the frame count: the element as the sampling loop gets it,
  what was thrown, or no return.
\<close>

definition primeVideo :: "browser \<Rightarrow> video \<Rightarrow> outcome \<times> video" where
  "primeVideo env samplingVideo =
    (case priming env of
       PrimeHangs \<Rightarrow> (Hung, samplingVideo)
     | PrimeRethrows e \<Rightarrow> (Threw e, samplingVideo)
     | primed \<Rightarrow>
         (let v1 = (if primed = PrimePlayed then samplingVideo\<lparr>currentTime := 0, paused := True\<rparr>
                    else samplingVideo\<lparr>currentTime := 0\<rparr>)
          in if hasCurrentData env then (Returned, v1)
             else if canplayFires env then (Returned, v1\<lparr>paused := True\<rparr>)
             else (Hung, v1)))"

text \<open>The \<open>try\<close> block.\<close>

definition exportBody :: "component \<Rightarrow> browser \<Rightarrow> ExportFormat \<Rightarrow> outcome \<times> locals" where
  "exportBody cmp env fmt =
    (let l0 = \<lparr>trace = [SetExportState \<lparr>status = Initializing, format = Some fmt, progress = fl 0.05,
                                         message = Some ''Loading encoder''\<rparr>],
                totalFrames = 0, outputName = None, objectUrl = False,
                ffmpegCurrent = ffmpegRef cmp\<rparr>
     in case ensureFfmpeg (ffmpegRef cmp) (loadFails env) of
          Inl e \<Rightarrow> (Threw e, l0)
        | Inr ref \<Rightarrow>
            let l1 = l0\<lparr>ffmpegCurrent := ref, objectUrl := True,
                        trace := trace l0 @
                          [SetExportState \<lparr>status = Sampling, format = Some fmt, progress = fl 0.1,
                                           message = Some ''Sampling frames''\<rparr>]\<rparr>
            in case metadata env of
                 None \<Rightarrow> (Threw (JsError ''Unable to read video for export''), l1)
               | Some samplingVideo \<Rightarrow>
                   (case duration samplingVideo of
                      Num d \<Rightarrow>
                        if d \<le> 0 then (Threw (JsError ''Video duration unavailable for export''), l1)
                        else (case primeVideo env samplingVideo of
                                (Returned, primed) \<Rightarrow> samplePhase cmp env fmt primed d l1
                              | (out, primed) \<Rightarrow> (out, l1))
                    | _ \<Rightarrow> (Threw (JsError ''Video duration unavailable for export''), l1)))"

text \<open>\<open>String.prototype.includes\<close>.\<close>

fun startsWith :: "string \<Rightarrow> string \<Rightarrow> bool" where
  "startsWith s [] = True"
| "startsWith [] (p # ps) = False"
| "startsWith (c # cs) (p # ps) = (c = p \<and> startsWith cs ps)"

fun includesStr :: "string \<Rightarrow> string \<Rightarrow> bool" where
  "includesStr [] pat = (pat = [])"
| "includesStr (c # cs) pat = (startsWith (c # cs) pat \<or> includesStr cs pat)"

text \<open>The \<open>catch\<close> block: the message shown for what was thrown.\<close>

definition errorMessageFor :: "thrown \<Rightarrow> string" where
  "errorMessageFor e =
    (case e of
       NonError \<Rightarrow> ''Export failed''
     | JsError m \<Rightarrow>
         if includesStr m ''out of memory'' \<or> includesStr m ''OutOfMemoryError'' then
           ''Insufficient memory for export. Try reducing video length or character size.''
         else if includesStr m ''SharedArrayBuffer'' then
           ''Browser compatibility issue. Please refresh and try again.''
         else if includesStr m ''FFmpeg'' then
           ''Video encoding failed. Please try again or use a different format.''
         else m)"

definition catchBlock :: "ExportFormat \<Rightarrow> thrown \<Rightarrow> locals \<Rightarrow> locals" where
  "catchBlock fmt e l =
    l\<lparr>trace := trace l @
        [SetExportState \<lparr>status = Error, format = Some fmt, progress = 0,
                         message = Some (errorMessageFor e)\<rparr>]\<rparr>"

text \<open>The \<open>finally\<close> block: with an encoder in the reference, one delete per frame index
  below \<open>totalFrames\<close>, each in its own \<open>try\<close> with an empty \<open>catch\<close>, then the output
  file if it was named.\<close>

fun deleteFrames :: "browser \<Rightarrow> nat list \<Rightarrow> event list \<Rightarrow> event list" where
  "deleteFrames env [] tr = tr"
| "deleteFrames env (i # rest) tr =
    (if deleteFails env (frameName i)
     then deleteFrames env rest (tr @ [DeleteFile (frameName i) False])
     else deleteFrames env rest (tr @ [DeleteFile (frameName i) True]))"

definition finallyBlock :: "browser \<Rightarrow> locals \<Rightarrow> locals" where
  "finallyBlock env l =
    (if ffmpegCurrent l then
       (let tr1 = deleteFrames env [0..<totalFrames l] (trace l);
            tr2 = (case outputName l of
                     None \<Rightarrow> tr1
                   | Some n \<Rightarrow> tr1 @ [DeleteFile n (\<not> deleteFails env n)])
        in l\<lparr>trace := tr2, objectUrl := False\<rparr>)
     else l\<lparr>objectUrl := False\<rparr>)"

text \<open>\<open>handleExport\<close>: the locals at the end of the run, or where it stopped: a run left
  hanging in the \<open>try\<close> block reaches neither \<open>catch\<close> nor \<open>finally\<close>.\<close>

definition handleExport :: "component \<Rightarrow> browser \<Rightarrow> ExportFormat \<Rightarrow> locals" where
  "handleExport cmp env fmt =
    (if \<not> selectedFile cmp then
       \<lparr>trace = [], totalFrames = 0, outputName = None, objectUrl = False,
        ffmpegCurrent = ffmpegRef cmp\<rparr>
     else
       case exportBody cmp env fmt of
         (Hung, l) \<Rightarrow> l
       | (Returned, l) \<Rightarrow> finallyBlock env l
       | (Threw e, l) \<Rightarrow> finallyBlock env (catchBlock fmt e l))"

subsection \<open>Reading a run\<close>

fun exportStates :: "event list \<Rightarrow> ExportState list" where
  "exportStates [] = []"
| "exportStates (SetExportState s # es) = s # exportStates es"
| "exportStates (e # es) = exportStates es"

definition statuses :: "event list \<Rightarrow> ExportStatus list" where
  "statuses tr = map status (exportStates tr)"

fun written :: "event list \<Rightarrow> string list" where
  "written [] = []"
| "written (WriteFile n # es) = n # written es"
| "written (e # es) = written es"

fun deleted :: "event list \<Rightarrow> string list" where
  "deleted [] = []"
| "deleted (DeleteFile n ok # es) = n # deleted es"
| "deleted (e # es) = deleted es"

subsection \<open>Example inputs\<close>

text \<open>A two-second 640 \<times> 360 source showing black, a signed-in free-tier page with the
  minimal palette at 8 px, and a browser in which every step succeeds.\<close>

definition exampleVideo :: video where
  "exampleVideo =
    \<lparr>videoWidth = 640, videoHeight = 360, duration = Num 2, currentTime = 0, paused = True,
     picture = (\<lambda>_ _ _. 0)\<rparr>"

definition exampleScheme :: Scheme where
  "exampleScheme =
    \<lparr>label = ''Matrix Green'', ident = ''matrix'', foreground = ''#33ff66'', accent = ''#00b140''\<rparr>"

definition freshCanvas :: canvas where
  "freshCanvas = \<lparr>hasContext = True, canvasWidth = 300, canvasHeight = 150, pixels = (\<lambda>_. 0)\<rparr>"

definition usedCanvas :: canvas where
  "usedCanvas = \<lparr>hasContext = True, canvasWidth = 192, canvasHeight = 56, pixels = (\<lambda>_. 255)\<rparr>"

definition exampleComponent :: component where
  "exampleComponent =
    \<lparr>selectedFile = True, entitlement = free, charset = ''@$%#*+=-:. '',
     chosenScheme = exampleScheme, charPixelRef = 8, contrastRef = 1, ffmpegRef = False\<rparr>"

definition exampleBrowser :: browser where
  "exampleBrowser =
    \<lparr>loadFails = False, metadata = Some exampleVideo, priming = PrimePlayed,
     hasCurrentData = True, canplayFires = True, exportContext = True, bufferContext = True,
     seekThrow = (\<lambda>_. NoThrow), seekedInTime = (\<lambda>_. True), presented = (\<lambda>_ _ _ _. 0),
     pngFails = (\<lambda>_. False), writeFails = (\<lambda>_. False), execThrows = None, readThrows = None,
     deleteFails = (\<lambda>_. False)\<rparr>"

text \<open>The same browser with a two-minute source; with a source of a tenth of a second
  (the double nearest to 0.1); with an encoder whose run throws;
  with a media element whose every seek request throws; and with a sampling surface
  that gives no 2D context, so that the rasterizer yields nothing.\<close>

definition longSourceBrowser :: browser where
  "longSourceBrowser = exampleBrowser\<lparr>metadata := Some (exampleVideo\<lparr>duration := Num 120\<rparr>)\<rparr>"

definition shortSourceBrowser :: browser where
  "shortSourceBrowser =
    exampleBrowser\<lparr>metadata := Some (exampleVideo\<lparr>duration := Num (fl 0.1)\<rparr>)\<rparr>"

definition failingEncoderBrowser :: browser where
  "failingEncoderBrowser = exampleBrowser\<lparr>execThrows := Some (JsError ''FFmpeg exited with code 1'')\<rparr>"

definition seeksThrowBrowser :: browser where
  "seeksThrowBrowser = exampleBrowser\<lparr>seekThrow := (\<lambda>_. AssignThrows ''InvalidStateError'')\<rparr>"

definition noContextBrowser :: browser where
  "noContextBrowser = exampleBrowser\<lparr>bufferContext := False\<rparr>"

section \<open>Properties\<close>

subsection \<open>Double precision\<close>

lemma rne_bounds: "y - 1/2 \<le> of_int (rne y)" "of_int (rne y) \<le> y + 1/2"
  by (auto simp add: rne_def Let_def) linarith+

lemma rne_floor: "\<lfloor>y\<rfloor> \<le> rne y" "rne y \<le> \<lfloor>y\<rfloor> + 1"
  by (auto simp add: rne_def Let_def)

lemma rne_of_int: "rne (of_int n) = n"
  by (simp add: rne_def)

lemma rne_mono: "y \<le> z \<Longrightarrow> rne y \<le> rne z"
proof (cases "\<lfloor>y\<rfloor> = \<lfloor>z\<rfloor>")
  case True
  assume "y \<le> z"
  with True show ?thesis by (auto simp add: rne_def Let_def)
next
  case False
  assume "y \<le> z"
  then have "\<lfloor>y\<rfloor> \<le> \<lfloor>z\<rfloor>" by (rule floor_mono)
  with False have "\<lfloor>y\<rfloor> + 1 \<le> \<lfloor>z\<rfloor>" by simp
  with rne_floor(2) [of y] rne_floor(1) [of z] show ?thesis by linarith
qed

lemma bitlen_floor:
  fixes y :: real
  assumes "1 \<le> y"
  shows "0 \<le> bitlen \<lfloor>y\<rfloor> - 1" "2 ^ nat (bitlen \<lfloor>y\<rfloor> - 1) \<le> y" "y < 2 * 2 ^ nat (bitlen \<lfloor>y\<rfloor> - 1)"
proof -
  let ?n = "\<lfloor>y\<rfloor>"
  have n: "0 < ?n" using assms by simp
  have b: "2 ^ nat (bitlen ?n - 1) \<le> ?n" "?n < 2 ^ nat (bitlen ?n)"
    using bitlen_bounds [OF n] by simp_all
  have pos: "1 \<le> bitlen ?n" using n bitlen_eq_zero_iff [of ?n] bitlen_nonneg [of ?n] by linarith
  then show "0 \<le> bitlen ?n - 1" by simp
  have "(2::real) ^ nat (bitlen ?n - 1) = of_int (2 ^ nat (bitlen ?n - 1))" by simp
  also have "\<dots> \<le> of_int ?n" using b(1) by (simp only: of_int_le_iff)
  also have "\<dots> \<le> y" by simp
  finally show "2 ^ nat (bitlen ?n - 1) \<le> y" .
  have "?n + 1 \<le> 2 ^ nat (bitlen ?n)" using b(2) by simp
  then have "(of_int (?n + 1) :: real) \<le> of_int (2 ^ nat (bitlen ?n))" by (simp only: of_int_le_iff)
  then have "of_int ?n + 1 \<le> (2::real) ^ nat (bitlen ?n)" by simp
  moreover have "y < of_int ?n + 1" by linarith
  ultimately have lt: "y < 2 ^ nat (bitlen ?n)" by linarith
  have "nat (bitlen ?n) = Suc (nat (bitlen ?n - 1))" using pos by linarith
  then have "(2::real) ^ nat (bitlen ?n) = 2 * 2 ^ nat (bitlen ?n - 1)" by simp
  with lt show "y < 2 * 2 ^ nat (bitlen ?n - 1)" by simp
qed

lemma powi2_add: "(2::real) powi (a + b) = 2 powi a * 2 powi b"
  by (simp add: power_int_add)

lemma powi2_less_imp: "(2::real) powi m < 2 powi n \<Longrightarrow> m < n"
proof (rule ccontr)
  assume lt: "(2::real) powi m < 2 powi n" and "\<not> m < n"
  then have "n \<le> m" by simp
  then have "(2::real) powi n \<le> 2 powi m" by (intro power_int_increasing) simp_all
  with lt show False by simp
qed

lemma powi_nat: "0 \<le> k \<Longrightarrow> (2::real) powi k = 2 ^ nat k"
  by (simp add: power_int_def)

lemma powi_neg_nat: "0 \<le> k \<Longrightarrow> (2::real) powi (- k) = 1 / 2 ^ nat k"
  by (simp add: power_int_minus powi_nat inverse_eq_divide)

lemma binade_bounds:
  assumes "0 < x"
  shows "2 powi binade x \<le> x" "x < 2 powi (binade x + 1)"
proof -
  have "2 powi binade x \<le> x \<and> x < 2 powi (binade x + 1)"
  proof (cases "1 \<le> x")
    case True
    let ?k = "bitlen \<lfloor>x\<rfloor> - 1"
    note b = bitlen_floor [OF True]
    have e: "binade x = ?k" using True by (simp add: binade_def)
    have p: "2 powi ?k = (2::real) ^ nat ?k" using b(1) by (rule powi_nat)
    have "2 powi (?k + 1) = (2::real) powi ?k * 2 powi 1" by (rule powi2_add)
    then have p1: "2 powi (?k + 1) = (2::real) * 2 ^ nat ?k" using p by simp
    show ?thesis unfolding e p p1 using b by simp
  next
    case False
    let ?y = "1 / x"
    let ?k = "bitlen \<lfloor>?y\<rfloor> - 1"
    let ?P = "(2::real) ^ nat ?k"
    have y: "1 \<le> ?y" using False assms by simp
    note b = bitlen_floor [OF y]
    have P: "0 < ?P" by simp
    have up: "x * ?P \<le> 1" using b(2) assms by (simp add: field_simps)
    have lo: "1 < x * (2 * ?P)" using b(3) assms by (simp add: field_simps)
    have pm: "2 powi (- ?k) = 1 / ?P" using b(1) by (rule powi_neg_nat)
    have "2 powi (- ?k + (- 1)) = (2::real) powi (- ?k) * 2 powi (- 1)" by (rule powi2_add)
    then have pm1: "2 powi (- ?k - 1) = 1 / (2 * ?P)" using pm by simp
    have "2 powi (- ?k + 1) = (2::real) powi (- ?k) * 2 powi 1" by (rule powi2_add)
    then have pp1: "2 powi (- ?k + 1) = 2 / ?P" using pm by simp
    show ?thesis
    proof (cases "x * ?P = 1")
      case True
      then have e: "binade x = - ?k" using False by (simp add: binade_def Let_def)
      have "x = 1 / ?P" using True P by (simp add: field_simps)
      then show ?thesis unfolding e pm pp1 using P by (simp add: field_simps)
    next
      case ne: False
      then have e: "binade x = - ?k - 1" using False by (simp add: binade_def Let_def)
      have "x * ?P < 1" using up ne by simp
      then have a: "x < 1 / ?P" using P by (simp add: field_simps)
      have c: "1 / (2 * ?P) < x" using lo P by (simp add: field_simps)
      have "- ?k - 1 + 1 = - ?k" by simp
      then show ?thesis unfolding e pm1 using a c pm by simp
    qed
  qed
  then show "2 powi binade x \<le> x" "x < 2 powi (binade x + 1)" by simp_all
qed

lemma binade_unique:
  assumes "0 < x" "2 powi e \<le> x" "x < 2 powi (e + 1)"
  shows "binade x = e"
proof -
  note b = binade_bounds [OF assms(1)]
  have "2 powi e < (2::real) powi (binade x + 1)" using assms(2) b(2) by linarith
  then have 1: "e < binade x + 1" by (rule powi2_less_imp)
  have "2 powi binade x < (2::real) powi (e + 1)" using assms(3) b(1) by linarith
  then have 2: "binade x < e + 1" by (rule powi2_less_imp)
  from 1 2 show ?thesis by simp
qed

lemma flpos_range:
  assumes "0 < x"
  shows "2 powi binade x \<le> flpos x" "flpos x \<le> 2 powi (binade x + 1)"
proof -
  let ?e = "binade x"
  let ?u = "(2::real) powi (?e - 52)"
  note b = binade_bounds [OF assms]
  have u: "0 < ?u" by simp
  have lo: "2 powi ?e = 2 ^ 52 * ?u"
    by (simp add: power_int_diff)
  have hi: "2 powi (?e + 1) = 2 ^ 53 * ?u"
    by (simp add: power_int_diff power_int_add)
  have "2 ^ 52 \<le> x / ?u" using b(1) u unfolding lo by (simp add: field_simps)
  then have "rne (2 ^ 52) \<le> rne (x / ?u)" by (rule rne_mono)
  moreover have "rne (2 ^ 52) = 2 ^ 52" using rne_of_int [of "2 ^ 52"] by simp
  ultimately have "(2 ^ 52 :: real) \<le> of_int (rne (x / ?u))"
    by (metis of_int_le_iff of_int_numeral of_int_power)
  then show "2 powi ?e \<le> flpos x"
    unfolding lo flpos_def Let_def using u by (simp add: mult_right_mono)
  have "x / ?u \<le> 2 ^ 53" using b(2) u unfolding hi by (simp add: field_simps)
  then have "rne (x / ?u) \<le> rne (2 ^ 53)" by (rule rne_mono)
  moreover have "rne (2 ^ 53) = 2 ^ 53" using rne_of_int [of "2 ^ 53"] by simp
  ultimately have "of_int (rne (x / ?u)) \<le> (2 ^ 53 :: real)"
    by (metis of_int_le_iff of_int_numeral of_int_power)
  then show "flpos x \<le> 2 powi (?e + 1)"
    unfolding hi flpos_def Let_def using u by (simp add: mult_right_mono)
qed

lemma flpos_mono:
  assumes "0 < x" "x \<le> y"
  shows "flpos x \<le> flpos y"
proof -
  have y: "0 < y" using assms by simp
  note bx = binade_bounds [OF assms(1)] and bz = binade_bounds [OF y]
  have "2 powi binade x < (2::real) powi (binade y + 1)" using bx(1) bz(2) assms(2) by linarith
  then have "binade x < binade y + 1" by (rule powi2_less_imp)
  then have le: "binade x \<le> binade y" by simp
  show ?thesis
  proof (cases "binade x = binade y")
    case True
    have "x / 2 powi (binade y - 52) \<le> y / 2 powi (binade y - 52)"
      using assms(2) by (simp add: divide_right_mono)
    then have "rne (x / 2 powi (binade y - 52)) \<le> rne (y / 2 powi (binade y - 52))" by (rule rne_mono)
    then show ?thesis
      unfolding flpos_def Let_def True by (simp add: mult_right_mono)
  next
    case False
    with le have "binade x + 1 \<le> binade y" by simp
    then have "(2::real) powi (binade x + 1) \<le> 2 powi binade y"
      by (simp add: power_int_increasing)
    with flpos_range(2) [OF assms(1)] flpos_range(1) [OF y] show ?thesis by linarith
  qed
qed

lemma flpos_pos: "0 < x \<Longrightarrow> 0 < flpos x"
proof -
  assume "0 < x"
  then have "2 powi binade x \<le> flpos x" by (rule flpos_range(1))
  moreover have "0 < (2::real) powi binade x" by simp
  ultimately show ?thesis by linarith
qed

lemma fl_mono: "x \<le> y \<Longrightarrow> fl x \<le> fl y"
  using flpos_mono [of x y] flpos_mono [of "- y" "- x"] flpos_pos [of x] flpos_pos [of y]
    flpos_pos [of "- x"] flpos_pos [of "- y"]
  by (auto simp add: fl_def)

lemma fl_zero: "fl 0 = 0"
  by (simp add: fl_def)

lemma fl_sign: "0 \<le> x \<Longrightarrow> 0 \<le> fl x" "x \<le> 0 \<Longrightarrow> fl x \<le> 0"
  using fl_mono [of 0 x] fl_mono [of x 0] by (simp_all add: fl_zero)

lemma flpos_error:
  assumes "0 < x"
  shows "\<bar>flpos x - x\<bar> \<le> x / 2 ^ 53"
proof -
  let ?e = "binade x"
  let ?u = "(2::real) powi (?e - 52)"
  note b = binade_bounds [OF assms]
  have u: "0 < ?u" by simp
  have lo: "2 powi ?e = 2 ^ 52 * ?u" by (simp add: power_int_diff)
  have "flpos x - x = (of_int (rne (x / ?u)) - x / ?u) * ?u"
    unfolding flpos_def Let_def using u by (simp add: field_simps)
  then have "\<bar>flpos x - x\<bar> = \<bar>of_int (rne (x / ?u)) - x / ?u\<bar> * ?u"
    using u by (simp add: abs_mult)
  also have "\<dots> \<le> 1/2 * ?u"
    using rne_bounds [of "x / ?u"] u by (intro mult_right_mono) linarith+
  also have "\<dots> = 2 powi ?e / 2 ^ 53" unfolding lo by simp
  also have "\<dots> \<le> x / 2 ^ 53" using b(1) by (simp add: divide_right_mono)
  finally show ?thesis .
qed

lemma fl_error: "\<bar>fl x - x\<bar> \<le> \<bar>x\<bar> / 2 ^ 53"
proof -
  consider "x = 0" | "0 < x" | "x < 0" by linarith
  then show ?thesis
  proof cases
    case 1
    then show ?thesis by (simp add: fl_def)
  next
    case 2
    then show ?thesis using flpos_error [of x] by (simp add: fl_def)
  next
    case 3
    then have "\<bar>flpos (- x) - (- x)\<bar> \<le> (- x) / 2 ^ 53" by (intro flpos_error) simp
    moreover have "\<bar>- flpos (- x) - x\<bar> = \<bar>flpos (- x) - (- x)\<bar>" by linarith
    ultimately show ?thesis using 3 by (simp add: fl_def)
  qed
qed

text \<open>Evaluation at a positive number whose scaled value lies in the mantissa range.\<close>

lemma fl_scaled:
  assumes "2 ^ 52 \<le> x * 2 ^ p" "x * 2 ^ p < 2 ^ 53"
  shows "fl x = of_int (rne (x * 2 ^ p)) / 2 ^ p"
proof -
  have pos: "0 < x"
  proof (rule ccontr)
    assume "\<not> 0 < x"
    then have "x * 2 ^ p \<le> 0" by (simp add: mult_nonpos_nonneg)
    moreover have "(0::real) < 2 ^ 52" by simp
    ultimately show False using assms(1) by linarith
  qed
  have pw: "(2::real) powi (52 - int p) = 2 ^ 52 / 2 ^ p" by (simp add: power_int_diff)
  have "(2::real) powi (52 - int p + 1) = 2 powi (52 - int p) * 2 powi 1" by (rule powi2_add)
  then have pw1: "(2::real) powi (52 - int p + 1) = 2 ^ 53 / 2 ^ p" unfolding pw by simp
  have b1: "2 powi (52 - int p) \<le> x" unfolding pw using assms(1) by (simp add: field_simps)
  have b2: "x < 2 powi (52 - int p + 1)" unfolding pw1 using assms(2) by (simp add: field_simps)
  have "binade x = 52 - int p"
    using pos b1 b2 by (rule binade_unique)
  then have u: "2 powi (binade x - 52) = 1 / (2::real) ^ p"
    by (simp add: power_int_minus inverse_eq_divide)
  show ?thesis
    using pos unfolding fl_def flpos_def Let_def u by simp
qed

lemma fl_neg: "fl (- x) = - fl x"
  by (simp add: fl_def)

lemma fl_pos: "0 < x \<Longrightarrow> 0 < fl x"
  by (simp add: fl_def flpos_pos)

subsection \<open>Grid geometry\<close>

lemma computeGrid_lower:
  "16 \<le> width (computeGrid video charPixelSize)" "12 \<le> height (computeGrid video charPixelSize)"
  by (simp_all add: computeGrid_def Let_def)

text \<open>
  C10. For every source width and height (zero ones fall back to the default aspect
  ratio) and every positive character pixel size, the grid has at least 16 columns and
  at least 12 rows.
\<close>

theorem computeGrid_floor:
  "0 < charPixelSize \<Longrightarrow>
     16 \<le> width (computeGrid video charPixelSize) \<and> 12 \<le> height (computeGrid video charPixelSize)"
  by (simp add: computeGrid_def Let_def)

theorem computeGrid_floor_witness:
  "(0::real) < 8 \<and>
   16 \<le> width (computeGrid \<lparr>videoWidth = 0, videoHeight = 0, duration = NaN, currentTime = 0,
                              paused = True, picture = (\<lambda>_ _ _. 0)\<rparr> 8) \<and>
   12 \<le> height (computeGrid \<lparr>videoWidth = 0, videoHeight = 0, duration = NaN, currentTime = 0,
                               paused = True, picture = (\<lambda>_ _ _. 0)\<rparr> 8)"
  using computeGrid_floor [of 8 "\<lparr>videoWidth = 0, videoHeight = 0, duration = NaN, currentTime = 0,
                              paused = True, picture = (\<lambda>_ _ _. 0)\<rparr>"]
  by simp

subsection \<open>Rasterizer\<close>

lemma clampedContrast_nonneg: "0 \<le> clampedContrast k"
proof -
  have "0 \<le> fl 0.2" by (rule fl_sign) simp
  then show ?thesis by (simp add: clampedContrast_def)
qed

lemma clampedContrast_idem: "clampedContrast (max (fl 0.2) (min 2.5 k)) = clampedContrast k"
  by (simp add: clampedContrast_def)

text \<open>The adjusted brightness does not decrease with the brightness computed for the
  pixel: every rounding and both clamps keep the order.\<close>

lemma adjusted_le:
  assumes "0 \<le> cc" "x \<le> y"
  shows "adjusted cc x \<le> adjusted cc y"
proof -
  have "fl (x - 0.5) \<le> fl (y - 0.5)" using assms(2) by (intro fl_mono) simp
  then have "fl (x - 0.5) * cc \<le> fl (y - 0.5) * cc" using assms(1) by (rule mult_right_mono)
  then have "fl (fl (x - 0.5) * cc) \<le> fl (fl (y - 0.5) * cc)" by (rule fl_mono)
  then have "fl (fl (fl (x - 0.5) * cc) + 0.5) \<le> fl (fl (fl (y - 0.5) * cc) + 0.5)"
    by (intro fl_mono) simp
  then show ?thesis
    unfolding adjusted_def by (intro max.mono min.mono order_refl)
qed

text \<open>The brightness stored in a cell is the adjusted brightness of its pixel.\<close>

lemma cellAt_brightness:
  "brightness (cellAt data cs a f cc off) =
     adjusted cc (brightnessFor (real (unat (data off))) (real (unat (data (off + 1))))
                                (real (unat (data (off + 2)))))"
  by (simp add: cellAt_def Let_def)

text \<open>The error of the luminance as the code computes it, for channels between 0 and
  255.\<close>

lemma fl_small: "\<bar>x\<bar> \<le> 256 \<Longrightarrow> \<bar>fl x - x\<bar> \<le> 256 / 2 ^ 53"
proof -
  assume "\<bar>x\<bar> \<le> 256"
  then have "\<bar>x\<bar> / 2 ^ 53 \<le> 256 / 2 ^ 53" by (intro divide_right_mono) simp_all
  with fl_error [of x] show ?thesis by linarith
qed

lemma near_bound:
  fixes p q :: real
  shows "\<bar>p - q\<bar> \<le> 1 \<Longrightarrow> 0 \<le> q \<Longrightarrow> q \<le> 255 \<Longrightarrow> \<bar>p\<bar> \<le> 256"
  by linarith

lemma abs_chain:
  fixes p q t :: real
  shows "\<bar>p - q\<bar> \<le> d \<Longrightarrow> \<bar>q - t\<bar> \<le> e \<Longrightarrow> \<bar>p - t\<bar> \<le> d + e"
  by linarith

lemma abs_sum:
  fixes p q t u :: real
  shows "\<bar>p - q\<bar> \<le> d \<Longrightarrow> \<bar>t - u\<bar> \<le> e \<Longrightarrow> \<bar>(p + t) - (q + u)\<bar> \<le> d + e"
  by linarith

lemma close_order:
  fixes p q t u :: real
  shows "\<bar>p - q\<bar> \<le> e \<Longrightarrow> \<bar>t - u\<bar> \<le> e \<Longrightarrow> q + d \<le> u \<Longrightarrow> 2 * e \<le> d \<Longrightarrow> p \<le> t"
  by linarith

lemma literal_times_channel:
  assumes c: "0 \<le> c" "c \<le> 1" and ch: "0 \<le> x" "x \<le> 255"
  shows "\<bar>fl (fl c * x) - c * x\<bar> \<le> 512 / 2 ^ 53"
proof -
  have "\<bar>c\<bar> / 2 ^ 53 \<le> 1 / 2 ^ 53" using c by (intro divide_right_mono) simp_all
  with fl_error [of c] have a: "\<bar>fl c - c\<bar> \<le> 1 / 2 ^ 53" by linarith
  have "fl c * x - c * x = (fl c - c) * x" by (simp add: left_diff_distrib)
  then have "\<bar>fl c * x - c * x\<bar> = \<bar>fl c - c\<bar> * x" using ch(1) by (simp add: abs_mult)
  also have "\<dots> \<le> (1 / 2 ^ 53) * 255" using a ch by (intro mult_mono) simp_all
  finally have b: "\<bar>fl c * x - c * x\<bar> \<le> 255 / 2 ^ 53" by simp
  have cx: "0 \<le> c * x" using c(1) ch(1) by simp
  have "c * x \<le> 1 * 255" using c ch by (intro mult_mono) simp_all
  then have cx2: "c * x \<le> 255" by simp
  have "\<bar>fl c * x - c * x\<bar> \<le> 1" using b by simp
  then have "\<bar>fl c * x\<bar> \<le> 256" using cx cx2 by (rule near_bound)
  then have "\<bar>fl (fl c * x) - fl c * x\<bar> \<le> 256 / 2 ^ 53" by (rule fl_small)
  from abs_chain [OF this b] show ?thesis by simp
qed

lemma computed_luminance_error:
  assumes "0 \<le> x" "x \<le> 255" "0 \<le> y" "y \<le> 255" "0 \<le> z" "z \<le> 255"
  shows "\<bar>fl (fl (fl (fl 0.2126 * x) + fl (fl 0.7152 * y)) + fl (fl 0.0722 * z))
          - (0.2126 * x + 0.7152 * y + 0.0722 * z)\<bar> \<le> 2048 / 2 ^ 53"
proof -
  let ?p1 = "fl (fl 0.2126 * x)" and ?p2 = "fl (fl 0.7152 * y)" and ?p3 = "fl (fl 0.0722 * z)"
  have e1: "\<bar>?p1 - 0.2126 * x\<bar> \<le> 512 / 2 ^ 53"
    using assms by (intro literal_times_channel) simp_all
  have e2: "\<bar>?p2 - 0.7152 * y\<bar> \<le> 512 / 2 ^ 53"
    using assms by (intro literal_times_channel) simp_all
  have e3: "\<bar>?p3 - 0.0722 * z\<bar> \<le> 512 / 2 ^ 53"
    using assms by (intro literal_times_channel) simp_all
  have e12: "\<bar>(?p1 + ?p2) - (0.2126 * x + 0.7152 * y)\<bar> \<le> 512 / 2 ^ 53 + 512 / 2 ^ 53"
    using e1 e2 by (rule abs_sum)
  then have "\<bar>(?p1 + ?p2) - (0.2126 * x + 0.7152 * y)\<bar> \<le> 1" by simp
  moreover have "0 \<le> 0.2126 * x + 0.7152 * y" using assms by simp_all
  moreover have "0.2126 * x + 0.7152 * y \<le> 255" using assms by simp_all
  ultimately have m12: "\<bar>?p1 + ?p2\<bar> \<le> 256" by (rule near_bound)
  have s1: "\<bar>fl (?p1 + ?p2) - (?p1 + ?p2)\<bar> \<le> 256 / 2 ^ 53" using m12 by (rule fl_small)
  note t12 = abs_chain [OF s1 e12]
  note t123 = abs_sum [OF t12 e3]
  from t123 have "\<bar>(fl (?p1 + ?p2) + ?p3) - (0.2126 * x + 0.7152 * y + 0.0722 * z)\<bar> \<le> 1"
    by simp
  moreover have "0 \<le> 0.2126 * x + 0.7152 * y + 0.0722 * z" using assms by simp_all
  moreover have "0.2126 * x + 0.7152 * y + 0.0722 * z \<le> 255" using assms by simp_all
  ultimately have m123: "\<bar>fl (?p1 + ?p2) + ?p3\<bar> \<le> 256" by (rule near_bound)
  have s2: "\<bar>fl (fl (?p1 + ?p2) + ?p3) - (fl (?p1 + ?p2) + ?p3)\<bar> \<le> 256 / 2 ^ 53"
    using m123 by (rule fl_small)
  from abs_chain [OF s2 t123] show ?thesis by simp
qed

text \<open>Two 8-bit pixels of different luminance are at least 0.0001 apart.\<close>

lemma luminance_gap:
  fixes r1 g1 b1 r2 g2 b2 :: nat
  assumes "0.2126 * real r1 + 0.7152 * real g1 + 0.0722 * real b1
             < 0.2126 * real r2 + 0.7152 * real g2 + 0.0722 * real b2"
  shows "0.2126 * real r1 + 0.7152 * real g1 + 0.0722 * real b1 + 1 / 10000
             \<le> 0.2126 * real r2 + 0.7152 * real g2 + 0.0722 * real b2"
proof -
  have "real (2126 * r1 + 7152 * g1 + 722 * b1) < real (2126 * r2 + 7152 * g2 + 722 * b2)"
    using assms by simp
  then have "2126 * r1 + 7152 * g1 + 722 * b1 < 2126 * r2 + 7152 * g2 + 722 * b2"
    by (simp only: of_nat_less_iff)
  then have "2126 * r1 + 7152 * g1 + 722 * b1 + 1 \<le> 2126 * r2 + 7152 * g2 + 722 * b2" by simp
  then have "real (2126 * r1 + 7152 * g1 + 722 * b1 + 1) \<le> real (2126 * r2 + 7152 * g2 + 722 * b2)"
    by (simp only: of_nat_le_iff)
  then show ?thesis by simp
qed

text \<open>
  C9, as stated: with the contrast fixed, the adjusted brightness never decreases when
  the raw luminance \<open>0.2126 R + 0.7152 G + 0.0722 B\<close> does not decrease. It fails between
  pixels of equal luminance: (0, 23, 18) and (3, 0, 237) both have luminance 17.7492,
  and at contrast 1 the first gets the greater adjusted brightness, by rounding.
\<close>

theorem brightness_order_counterexample:
  "0.2126 * 0 + 0.7152 * 23 + 0.0722 * 18 \<le> 0.2126 * 3 + 0.7152 * 0 + 0.0722 * (237::real) \<and>
   \<not> adjusted (clampedContrast 1) (brightnessFor 0 23 18)
         \<le> adjusted (clampedContrast 1) (brightnessFor 3 0 237)"
proof -
  have e0: "fl (626943454949995 / 9007199254740992) = 626943454949995 / 9007199254740992"
    by (subst fl_scaled [where p = 56]) (simp_all add: rne_def)
  have e1: "fl (333063710442185 / 4785074604081152) = 2507773819799981 / 36028797018963968"
    by (subst fl_scaled [where p = 56]) (simp_all add: rne_def)
  have e2: "fl (624494457079097 / 8972014882652160) = 5015547639599963 / 72057594037927936"
    by (subst fl_scaled [where p = 56]) (simp_all add: rne_def)
  have e3: "fl (1253886909899991 / 18014398509481984) = 1253886909899991 / 18014398509481984"
    by (subst fl_scaled [where p = 56]) (simp_all add: rne_def)
  have e4: "fl (361 / 5000) = 5202558289538397 / 72057594037927936"
    by (subst fl_scaled [where p = 56]) (simp_all add: rne_def)
  have e5: "fl (1 / 5) = 3602879701896397 / 18014398509481984"
    by (subst fl_scaled [where p = 55]) (simp_all add: rne_def)
  have e6: "fl (1063 / 5000) = 1914930561557935 / 9007199254740992"
    by (subst fl_scaled [where p = 55]) (simp_all add: rne_def)
  have e7: "fl (7753312344841001 / 18014398509481984) = 7753312344841001 / 18014398509481984"
    by (subst fl_scaled [where p = 54]) (simp_all add: rne_def)
  have e8: "fl (31013249379364005 / 72057594037927936) = 7753312344841001 / 18014398509481984"
    by (subst fl_scaled [where p = 54]) (simp_all add: rne_def)
  have e9: "fl (15506624689682003 / 36028797018963968) = 3876656172420501 / 9007199254740992"
    by (subst fl_scaled [where p = 54]) (simp_all add: rne_def)
  have e10: "fl (3876656172420501 / 9007199254740992) = 3876656172420501 / 9007199254740992"
    by (subst fl_scaled [where p = 54]) (simp_all add: rne_def)
  have e11: "fl (5744791684673805 / 9007199254740992) = 5744791684673805 / 9007199254740992"
    by (subst fl_scaled [where p = 53]) (simp_all add: rne_def)
  have e12: "fl (447 / 625) = 6441948906990757 / 9007199254740992"
    by (subst fl_scaled [where p = 53]) (simp_all add: rne_def)
  have e13: "fl (46823024605845573 / 36028797018963968) = 5852878075730697 / 4503599627370496"
    by (subst fl_scaled [where p = 52]) (simp_all add: rne_def)
  have e14: "fl (148164824860787411 / 9007199254740992) = 4630150776899607 / 281474976710656"
    by (subst fl_scaled [where p = 48]) (simp_all add: rne_def)
  have e15: "fl (4630150776899607 / 281474976710656) = 4630150776899607 / 281474976710656"
    by (subst fl_scaled [where p = 48]) (simp_all add: rne_def)
  have e16: "fl (1233006314620600089 / 72057594037927936) = 4816430916486719 / 281474976710656"
    by (subst fl_scaled [where p = 48]) (simp_all add: rne_def)
  have e17: "fl (159870581012248813 / 9007199254740992) = 4995955656632775 / 281474976710656"
    by (subst fl_scaled [where p = 48]) (simp_all add: rne_def)
  have e18: "fl (79935290506124409 / 4503599627370496) = 624494457079097 / 35184372088832"
    by (subst fl_scaled [where p = 48]) (simp_all add: rne_def)
  have lo: "fl (1 / 5) = 3602879701896397 / 18014398509481984"
    by (subst fl_scaled [where p = 55]) (simp_all add: rne_def)
  have cc: "clampedContrast 1 = 1"
    by (simp add: clampedContrast_def lo)
  have first: "brightnessFor 0 23 18 = 5015547639599963 / 72057594037927936"
    by (simp add: brightnessFor_def fl_zero e0 e1 e2 e3 e4 e5 e6 e7 e8 e9 e10 e11 e12 e13 e14 e15 e16 e17 e18)
  have second: "brightnessFor 3 0 237 = 2507773819799981 / 36028797018963968"
    by (simp add: brightnessFor_def fl_zero e0 e1 e2 e3 e4 e5 e6 e7 e8 e9 e10 e11 e12 e13 e14 e15 e16 e17 e18)
  have a1: "adjusted 1 (5015547639599963 / 72057594037927936) = 1253886909899991 / 18014398509481984"
    by (simp add: adjusted_def fl_neg e0 e1 e2 e3 e4 e5 e6 e7 e8 e9 e10 e11 e12 e13 e14 e15 e16 e17 e18)
  have a2: "adjusted 1 (2507773819799981 / 36028797018963968) = 626943454949995 / 9007199254740992"
    by (simp add: adjusted_def fl_neg e0 e1 e2 e3 e4 e5 e6 e7 e8 e9 e10 e11 e12 e13 e14 e15 e16 e17 e18)
  show ?thesis
    unfolding cc first second a1 a2 by simp
qed

text \<open>
  C9, amended. With the contrast fixed, a pixel of strictly greater raw luminance
  \<open>0.2126 R + 0.7152 G + 0.0722 B\<close>, the channels being bytes, never gets a smaller
  adjusted brightness \<open>clamp((brightness - 0.5) * contrast + 0.5, 0, 1)\<close>, the contrast
  being the clamped one the rasterizer uses.
\<close>

theorem adjusted_monotone:
  fixes r1 g1 b1 r2 g2 b2 :: "8 word"
  assumes "0.2126 * real (unat r1) + 0.7152 * real (unat g1) + 0.0722 * real (unat b1)
             < 0.2126 * real (unat r2) + 0.7152 * real (unat g2) + 0.0722 * real (unat b2)"
  shows "adjusted (clampedContrast contrast)
           (brightnessFor (real (unat r1)) (real (unat g1)) (real (unat b1)))
         \<le> adjusted (clampedContrast contrast)
              (brightnessFor (real (unat r2)) (real (unat g2)) (real (unat b2)))"
proof -
  have byte: "0 \<le> real (unat w) \<and> real (unat w) \<le> 255" for w :: "8 word"
  proof -
    have "unat w < 256" using unsigned_less [of w, where ?'a = nat] by simp
    then have "unat w \<le> 255" by simp
    then have "real (unat w) \<le> real 255" by (simp only: of_nat_le_iff)
    then have "real (unat w) \<le> 255" by simp
    moreover have "0 \<le> real (unat w)" by (rule of_nat_0_le_iff)
    ultimately show ?thesis by (rule conjI [rotated])
  qed
  let ?S1 = "fl (fl (fl (fl 0.2126 * real (unat r1)) + fl (fl 0.7152 * real (unat g1)))
                 + fl (fl 0.0722 * real (unat b1)))"
  let ?S2 = "fl (fl (fl (fl 0.2126 * real (unat r2)) + fl (fl 0.7152 * real (unat g2)))
                 + fl (fl 0.0722 * real (unat b2)))"
  have err1: "\<bar>?S1 - (0.2126 * real (unat r1) + 0.7152 * real (unat g1) + 0.0722 * real (unat b1))\<bar>
                \<le> 2048 / 2 ^ 53"
    using byte by (intro computed_luminance_error) simp_all
  have err2: "\<bar>?S2 - (0.2126 * real (unat r2) + 0.7152 * real (unat g2) + 0.0722 * real (unat b2))\<bar>
                \<le> 2048 / 2 ^ 53"
    using byte by (intro computed_luminance_error) simp_all
  note gap = luminance_gap [OF assms]
  have "?S1 \<le> ?S2" by (rule close_order [OF err1 err2 gap]) simp
  then have "?S1 / 255 \<le> ?S2 / 255" by (intro divide_right_mono) simp_all
  then have "brightnessFor (real (unat r1)) (real (unat g1)) (real (unat b1))
               \<le> brightnessFor (real (unat r2)) (real (unat g2)) (real (unat b2))"
    unfolding brightnessFor_def by (rule fl_mono)
  with clampedContrast_nonneg show ?thesis by (rule adjusted_le)
qed

theorem adjusted_monotone_witness:
  "0.2126 * real (unat (0 :: 8 word)) + 0.7152 * real (unat (0 :: 8 word)) + 0.0722 * real (unat (0 :: 8 word))
     < 0.2126 * real (unat (255 :: 8 word)) + 0.7152 * real (unat (255 :: 8 word))
       + 0.0722 * real (unat (255 :: 8 word)) \<and>
   adjusted (clampedContrast 1)
       (brightnessFor (real (unat (0 :: 8 word))) (real (unat (0 :: 8 word))) (real (unat (0 :: 8 word))))
     \<le> adjusted (clampedContrast 1)
          (brightnessFor (real (unat (255 :: 8 word))) (real (unat (255 :: 8 word)))
             (real (unat (255 :: 8 word))))"
  using adjusted_monotone [of 0 0 0 255 255 255 1] by simp

lemma asciiFromVideo_no_context:
  "\<not> hasContext c \<Longrightarrow> asciiFromVideo v c cs s p k = (c, None)"
  by (simp add: asciiFromVideo_def)

lemma asciiFromVideo_context:
  "hasContext c \<Longrightarrow> snd (asciiFromVideo v c cs s p k) \<noteq> None \<and> hasContext (fst (asciiFromVideo v c cs s p k))"
  by (simp add: asciiFromVideo_def Let_def)

text \<open>The cells of the frame, row by row.\<close>

lemma asciiFromVideo_cell:
  assumes "hasContext c" "y < nat (height (computeGrid v p))" "x < nat (width (computeGrid v p))"
  shows "rows (the (snd (asciiFromVideo v c cs s p k))) ! y ! x =
           cellAt (picture v (nat (width (computeGrid v p))) (nat (height (computeGrid v p)))) cs
             (hexToRgb (accent s)) (hexToRgb (foreground s)) (clampedContrast k)
             ((y * nat (width (computeGrid v p)) + x) * 4)"
  using assms by (simp add: asciiFromVideo_def Let_def)

text \<open>
  C8. Contrast is clamped to [0.2, 2.5] inside the rasterizer, 0.2 being the double of
  that literal: for every video, surface, palette, scheme and character size the result
  for a contrast is the result for that contrast clamped, so contrast 5.0 gives the
  result of contrast 2.5 and contrast -1.0 the result of contrast 0.2; and the
  brightness of every cell of the frame is the adjusted brightness of its pixel at the
  clamped contrast.
\<close>

theorem contrast_clamping:
  "asciiFromVideo v c cs s charPixelSize contrast
     = asciiFromVideo v c cs s charPixelSize (max (fl 0.2) (min 2.5 contrast)) \<and>
   asciiFromVideo v c cs s charPixelSize 5.0 = asciiFromVideo v c cs s charPixelSize 2.5 \<and>
   asciiFromVideo v c cs s charPixelSize (-1.0) = asciiFromVideo v c cs s charPixelSize (fl 0.2) \<and>
   (hasContext c \<longrightarrow>
      (\<forall>y < nat (height (computeGrid v charPixelSize)).
       \<forall>x < nat (width (computeGrid v charPixelSize)).
         brightness (rows (the (snd (asciiFromVideo v c cs s charPixelSize contrast))) ! y ! x) =
           adjusted (max (fl 0.2) (min 2.5 contrast))
             (brightnessFor
                (real (unat (picture v (nat (width (computeGrid v charPixelSize)))
                               (nat (height (computeGrid v charPixelSize)))
                               ((y * nat (width (computeGrid v charPixelSize)) + x) * 4))))
                (real (unat (picture v (nat (width (computeGrid v charPixelSize)))
                               (nat (height (computeGrid v charPixelSize)))
                               ((y * nat (width (computeGrid v charPixelSize)) + x) * 4 + 1))))
                (real (unat (picture v (nat (width (computeGrid v charPixelSize)))
                               (nat (height (computeGrid v charPixelSize)))
                               ((y * nat (width (computeGrid v charPixelSize)) + x) * 4 + 2)))))))"
proof -
  have low: "0 \<le> fl 0.2" by (rule fl_sign) simp
  have idem: "clampedContrast (max (fl 0.2) (min 2.5 contrast)) = clampedContrast contrast"
    by (simp add: clampedContrast_def)
  have hi: "clampedContrast 5.0 = clampedContrast 2.5"
    by (simp add: clampedContrast_def)
  have lo: "clampedContrast (-1.0) = clampedContrast (fl 0.2)"
    using low by (simp add: clampedContrast_def)
  have general: "asciiFromVideo v c cs s charPixelSize contrast
     = asciiFromVideo v c cs s charPixelSize (max (fl 0.2) (min 2.5 contrast))"
    unfolding asciiFromVideo_def idem by (rule refl)
  have five: "asciiFromVideo v c cs s charPixelSize 5.0 = asciiFromVideo v c cs s charPixelSize 2.5"
    unfolding asciiFromVideo_def hi by (rule refl)
  have minus: "asciiFromVideo v c cs s charPixelSize (-1.0) = asciiFromVideo v c cs s charPixelSize (fl 0.2)"
    unfolding asciiFromVideo_def lo by (rule refl)
  have cells: "brightness (rows (the (snd (asciiFromVideo v c cs s charPixelSize contrast))) ! y ! x) =
           adjusted (max (fl 0.2) (min 2.5 contrast))
             (brightnessFor
                (real (unat (picture v (nat (width (computeGrid v charPixelSize)))
                               (nat (height (computeGrid v charPixelSize)))
                               ((y * nat (width (computeGrid v charPixelSize)) + x) * 4))))
                (real (unat (picture v (nat (width (computeGrid v charPixelSize)))
                               (nat (height (computeGrid v charPixelSize)))
                               ((y * nat (width (computeGrid v charPixelSize)) + x) * 4 + 1))))
                (real (unat (picture v (nat (width (computeGrid v charPixelSize)))
                               (nat (height (computeGrid v charPixelSize)))
                               ((y * nat (width (computeGrid v charPixelSize)) + x) * 4 + 2)))))"
    if "hasContext c" "y < nat (height (computeGrid v charPixelSize))"
       "x < nat (width (computeGrid v charPixelSize))" for y x
    unfolding asciiFromVideo_cell [OF that] cellAt_brightness clampedContrast_def by (rule refl)
  from general five minus cells show ?thesis by blast
qed

theorem contrast_clamping_witness:
  "asciiFromVideo exampleVideo freshCanvas ''@$%#*+=-:. '' exampleScheme 8 5
     = asciiFromVideo exampleVideo freshCanvas ''@$%#*+=-:. '' exampleScheme 8 (max (fl 0.2) (min 2.5 5)) \<and>
   asciiFromVideo exampleVideo freshCanvas ''@$%#*+=-:. '' exampleScheme 8 5.0
     = asciiFromVideo exampleVideo freshCanvas ''@$%#*+=-:. '' exampleScheme 8 2.5 \<and>
   asciiFromVideo exampleVideo freshCanvas ''@$%#*+=-:. '' exampleScheme 8 (-1.0)
     = asciiFromVideo exampleVideo freshCanvas ''@$%#*+=-:. '' exampleScheme 8 (fl 0.2) \<and>
   hasContext freshCanvas \<and>
   (0::nat) < nat (height (computeGrid exampleVideo 8)) \<and>
   (0::nat) < nat (width (computeGrid exampleVideo 8)) \<and>
   brightness (rows (the (snd (asciiFromVideo exampleVideo freshCanvas ''@$%#*+=-:. '' exampleScheme 8 5)))
                 ! 0 ! 0)
     = adjusted 2.5 (brightnessFor 0 0 0)"
proof -
  have ctx: "hasContext freshCanvas" by (simp add: freshCanvas_def)
  have h: "(0::nat) < nat (height (computeGrid exampleVideo 8))"
    using computeGrid_lower(2) [of exampleVideo 8] by simp
  have w: "(0::nat) < nat (width (computeGrid exampleVideo 8))"
    using computeGrid_lower(1) [of exampleVideo 8] by simp
  have "fl (1 / 5) = 3602879701896397 / 18014398509481984"
    by (subst fl_scaled [where p = 55]) (simp_all add: rne_def)
  then have low: "fl 0.2 \<le> 2.5" by simp
  have pic: "picture exampleVideo = (\<lambda>_ _ _. 0)" by (simp add: exampleVideo_def)
  note inst = contrast_clamping [of exampleVideo freshCanvas "''@$%#*+=-:. ''" exampleScheme 8 5]
  from inst [THEN conjunct2, THEN conjunct2, THEN conjunct2] ctx h w have
    "brightness (rows (the (snd (asciiFromVideo exampleVideo freshCanvas ''@$%#*+=-:. '' exampleScheme 8 5)))
                 ! 0 ! 0)
     = adjusted (max (fl 0.2) (min 2.5 5)) (brightnessFor 0 0 0)"
    unfolding pic by simp
  moreover have "max (fl 0.2) (min 2.5 5) = (2.5::real)" using low by simp
  ultimately show ?thesis using inst ctx h w by simp
qed

text \<open>
  C4. Rasterization is deterministic. The frame a call produces is a function of the
  frame source (its dimensions and its picture), the palette, the scheme, the character
  size and the contrast alone: two calls that agree on these, on surfaces that both
  give a context, produce the same frame in every field, whatever the surfaces held
  before and wherever the two elements are in their playback.
\<close>

theorem rasterize_deterministic:
  "0 < charPixelSize \<Longrightarrow> hasContext c1 = hasContext c2 \<Longrightarrow>
   videoWidth v1 = videoWidth v2 \<Longrightarrow> videoHeight v1 = videoHeight v2 \<Longrightarrow>
   picture v1 = picture v2 \<Longrightarrow>
   snd (asciiFromVideo v1 c1 cs s charPixelSize contrast)
     = snd (asciiFromVideo v2 c2 cs s charPixelSize contrast)"
  by (simp add: asciiFromVideo_def computeGrid_def Let_def)

theorem rasterize_deterministic_witness:
  "(0::real) < 8 \<and> hasContext freshCanvas = hasContext usedCanvas \<and>
   videoWidth exampleVideo = videoWidth (exampleVideo\<lparr>currentTime := 1, paused := False\<rparr>) \<and>
   videoHeight exampleVideo = videoHeight (exampleVideo\<lparr>currentTime := 1, paused := False\<rparr>) \<and>
   picture exampleVideo = picture (exampleVideo\<lparr>currentTime := 1, paused := False\<rparr>) \<and>
   snd (asciiFromVideo exampleVideo freshCanvas ''@$%#*+=-:. '' exampleScheme 8 1)
     = snd (asciiFromVideo (exampleVideo\<lparr>currentTime := 1, paused := False\<rparr>) usedCanvas
              ''@$%#*+=-:. '' exampleScheme 8 1)"
  using rasterize_deterministic [of 8 freshCanvas usedCanvas exampleVideo
          "exampleVideo\<lparr>currentTime := 1, paused := False\<rparr>" "''@$%#*+=-:. ''" exampleScheme 1]
  by (simp add: freshCanvas_def usedCanvas_def)

subsection \<open>Seeker\<close>

lemma dispatch_settled: "\<not> listening st \<Longrightarrow> \<not> timer st \<Longrightarrow> dispatch st ev = st"
  by (simp add: dispatch_def split: seek_event.splits)

lemma foldl_dispatch_settled: "\<not> listening st \<Longrightarrow> \<not> timer st \<Longrightarrow> foldl dispatch st evs = st"
  by (induction evs) (simp_all add: dispatch_settled)

lemma seekStart_throw:
  "thrown \<noteq> NoThrow \<Longrightarrow>
     \<not> listening (seekStart v t thrown) \<and> \<not> timer (seekStart v t thrown) \<and>
     (\<exists>m. promise (seekStart v t thrown) = Rejected m)"
  by (cases thrown) (simp_all add: seekStart_def fail_def seekCleanup_def Let_def)

lemma dispatch_first:
  "dispatch (seekStart v t NoThrow) ev =
     \<lparr>element = v\<lparr>paused := True, currentTime := clampTime (duration v) t\<rparr>, resolved = True,
      listening = False, timer = False, promise = Resolved\<rparr>"
  by (cases ev)
     (simp_all add: dispatch_def seekStart_def handleSeeked_def finish_def seekCleanup_def Let_def)

lemma seekVideo_throw:
  "thrown \<noteq> NoThrow \<Longrightarrow> seekVideo v t thrown evs = seekStart v t thrown"
  using seekStart_throw [of thrown v t] by (simp add: seekVideo_def foldl_dispatch_settled)

lemma seekVideo_events:
  "seekVideo v t NoThrow (ev # evs) =
     \<lparr>element = v\<lparr>paused := True, currentTime := clampTime (duration v) t\<rparr>, resolved = True,
      listening = False, timer = False, promise = Resolved\<rparr>"
  by (simp add: seekVideo_def dispatch_first foldl_dispatch_settled)

text \<open>
  C6. The seek rejects if and only if its synchronous request (the pause and the
  assignment of the target time) throws. Otherwise the first event to arrive settles
  it: whether that is \<open>seeked\<close>, early or late, or the timer with no \<open>seeked\<close> at all,
  the promise is resolved and the video is paused. As long as the promise is pending
  its timer is armed, so such an event does arrive.
\<close>

theorem seekVideo_rejects_iff_throws:
  "((\<exists>m. promise (seekVideo v t thrown evs) = Rejected m) \<longleftrightarrow> thrown \<noteq> NoThrow) \<and>
   (thrown = NoThrow \<longrightarrow> evs \<noteq> [] \<longrightarrow>
      promise (seekVideo v t thrown evs) = Resolved \<and> paused (element (seekVideo v t thrown evs))) \<and>
   (promise (seekVideo v t thrown evs) = Pending \<longrightarrow> timer (seekVideo v t thrown evs))"
proof (cases "thrown = NoThrow")
  case True
  show ?thesis
  proof (cases evs)
    case Nil
    with True show ?thesis by (simp add: seekVideo_def seekStart_def)
  next
    case (Cons ev rest)
    with True show ?thesis by (simp add: seekVideo_events)
  qed
next
  case False
  then show ?thesis
    using seekStart_throw [of thrown v t] by (auto simp add: seekVideo_throw)
qed

theorem seekVideo_rejects_iff_throws_witness:
  "((\<exists>m. promise (seekVideo exampleVideo 1 NoThrow [TimerEvent]) = Rejected m) \<longleftrightarrow> NoThrow \<noteq> NoThrow) \<and>
   NoThrow = NoThrow \<and> [TimerEvent] \<noteq> [] \<and>
   promise (seekVideo exampleVideo 1 NoThrow [TimerEvent]) = Resolved \<and>
   paused (element (seekVideo exampleVideo 1 NoThrow [TimerEvent])) \<and>
   promise (seekVideo exampleVideo 1 NoThrow []) = Pending \<and>
   timer (seekVideo exampleVideo 1 NoThrow [])"
proof -
  have pending: "promise (seekVideo exampleVideo 1 NoThrow []) = Pending"
    by (simp add: seekVideo_def seekStart_def)
  show ?thesis
    using seekVideo_rejects_iff_throws [of exampleVideo 1 NoThrow "[TimerEvent]"]
      seekVideo_rejects_iff_throws [of exampleVideo 1 NoThrow "[]"] pending
    by simp
qed





subsection \<open>Export orchestrator\<close>

lemma exportStates_append: "exportStates (xs @ ys) = exportStates xs @ exportStates ys"
  by (induction xs rule: exportStates.induct) simp_all

lemma statuses_append: "statuses (xs @ ys) = statuses xs @ statuses ys"
  by (simp add: statuses_def exportStates_append)

lemma written_append: "written (xs @ ys) = written xs @ written ys"
  by (induction xs rule: written.induct) simp_all

lemma deleted_append: "deleted (xs @ ys) = deleted xs @ deleted ys"
  by (induction xs rule: deleted.induct) simp_all

lemma loop_seek_settles:
  "promise (seekVideo v t thr (if early then [SeekedEvent, TimerEvent] else [TimerEvent])) \<noteq> Pending"
proof (cases "thr = NoThrow")
  case True
  then show ?thesis by (simp add: seekVideo_events)
next
  case False
  then show ?thesis
    using seekStart_throw [of thr v t] by (auto simp add: seekVideo_throw)
qed

text \<open>What the sampling loop adds to the steps.\<close>

lemma sampleFrames_shape:
  "fst (sampleFrames cmp env fmt dur step n idxs (v, c, tr)) \<noteq> Hung \<and>
   (\<exists>ext. snd (sampleFrames cmp env fmt dur step n idxs (v, c, tr)) = tr @ ext \<and>
          set (statuses ext) \<subseteq> {Sampling} \<and> deleted ext = [] \<and>
          set (written ext) \<subseteq> frameName ` set idxs)"
proof (induction idxs arbitrary: v c tr)
  case Nil
  show ?case by (simp add: statuses_def)
next
  case (Cons index rest)
  let ?sk = "seekVideo v (clampTime (Num dur) (if step = 0 then 0 else fl (real index * step)))
               (seekThrow env index)
               (if seekedInTime env index then [SeekedEvent, TimerEvent] else [TimerEvent])"
  have settled: "promise ?sk \<noteq> Pending" by (rule loop_seek_settles)
  show ?case
  proof (cases "promise ?sk")
    case Pending
    with settled show ?thesis by simp
  next
    case (Rejected reason)
    show ?thesis
      using Cons.IH [of "element ?sk" c tr] Rejected
      by (auto simp add: Let_def)
  next
    case Resolved
    let ?v = "(element ?sk)\<lparr>picture := presented env index\<rparr>"
    obtain c' frame where raster:
      "asciiFromVideo ?v c (charset cmp) (chosenScheme cmp) (charPixelRef cmp) (contrastRef cmp) = (c', frame)"
      by (cases "asciiFromVideo ?v c (charset cmp) (chosenScheme cmp) (charPixelRef cmp) (contrastRef cmp)")
    show ?thesis
    proof (cases frame)
      case None
      show ?thesis
        using Cons.IH [of ?v c' tr] Resolved raster None
        by (auto simp add: Let_def)
    next
      case (Some f)
      let ?ev = "[WriteFile (frameName index),
                  SetExportState \<lparr>status = Sampling, format = Some fmt,
                     progress = fl (fl 0.1 + fl (fl (real index / real n) * 0.5)),
                     message = Some (''Captured frame '' @ showNat (index + 1) @ '' / '' @ showNat n)\<rparr>]"
      consider (png) "pngFails env index"
        | (wr) "\<not> pngFails env index" "writeFails env index"
        | (ok) "\<not> pngFails env index" "\<not> writeFails env index" by blast
      then show ?thesis
      proof cases
        case png
        then show ?thesis
          using Resolved raster Some by (simp add: Let_def statuses_def)
      next
        case wr
        then show ?thesis
          using Resolved raster Some by (simp add: Let_def statuses_def)
      next
        case ok
        obtain ext where ext:
          "snd (sampleFrames cmp env fmt dur step n rest (?v, c', tr @ ?ev)) = (tr @ ?ev) @ ext"
          "set (statuses ext) \<subseteq> {Sampling}" "deleted ext = []"
          "set (written ext) \<subseteq> frameName ` set rest"
          and nh: "fst (sampleFrames cmp env fmt dur step n rest (?v, c', tr @ ?ev)) \<noteq> Hung"
          using Cons.IH [of ?v c' "tr @ ?ev"] by blast
        have step: "sampleFrames cmp env fmt dur step n (index # rest) (v, c, tr)
                    = sampleFrames cmp env fmt dur step n rest (?v, c', tr @ ?ev)"
          using Resolved raster Some ok by (simp add: Let_def)
        have "snd (sampleFrames cmp env fmt dur step n (index # rest) (v, c, tr)) = tr @ (?ev @ ext)"
          using step ext(1) by simp
        moreover have "set (statuses (?ev @ ext)) \<subseteq> {Sampling}"
          using ext(2) by (simp add: statuses_def exportStates_append)
        moreover have "deleted (?ev @ ext) = []"
          using ext(3) by (simp add: deleted_append)
        moreover have "set (written (?ev @ ext)) \<subseteq> frameName ` set (index # rest)"
          using ext(4) by (auto simp add: written_append)
        ultimately show ?thesis
          using nh step by metis
      qed
    qed
  qed
qed

text \<open>The loop body as a chain of tests on what the browser does.\<close>

lemma sampleFrames_Cons:
  "sampleFrames cmp env fmt dur step n (index # rest) (v, c, tr) =
    (let t = clampTime (Num dur) (if step = 0 then 0 else fl (real index * step));
         v' = v\<lparr>paused := True, currentTime := clampTime (duration v) t, picture := presented env index\<rparr>
     in if seekThrow env index \<noteq> NoThrow then
          sampleFrames cmp env fmt dur step n rest (element (seekStart v t (seekThrow env index)), c, tr)
        else if \<not> hasContext c then sampleFrames cmp env fmt dur step n rest (v', c, tr)
        else if pngFails env index then
          (Threw (JsError (''Frame processing failed at frame '' @ showNat (index + 1))), tr)
        else if writeFails env index then
          (Threw (JsError (''Frame processing failed at frame '' @ showNat (index + 1))),
           tr @ [WriteFile (frameName index)])
        else sampleFrames cmp env fmt dur step n rest
               (v', fst (asciiFromVideo v' c (charset cmp) (chosenScheme cmp) (charPixelRef cmp) (contrastRef cmp)),
                tr @ [WriteFile (frameName index),
                      SetExportState
                        \<lparr>status = Sampling, format = Some fmt,
                         progress = fl (fl 0.1 + fl (fl (real index / real n) * 0.5)),
                         message = Some (''Captured frame '' @ showNat (index + 1) @ '' / '' @ showNat n)\<rparr>]))"
proof -
  let ?t = "clampTime (Num dur) (if step = 0 then 0 else fl (real index * step))"
  let ?evs = "if seekedInTime env index then [SeekedEvent, TimerEvent] else [TimerEvent]"
  let ?sk = "seekVideo v ?t (seekThrow env index) ?evs"
  let ?v = "v\<lparr>paused := True, currentTime := clampTime (duration v) ?t, picture := presented env index\<rparr>"
  show ?thesis
  proof (cases "seekThrow env index = NoThrow")
    case False
    then obtain m where "promise ?sk = Rejected m" and "element ?sk = element (seekStart v ?t (seekThrow env index))"
      using seekStart_throw [OF False, of v ?t] by (auto simp add: seekVideo_throw [OF False])
    with False show ?thesis by (simp add: Let_def)
  next
    case True
    have sk: "promise ?sk = Resolved" "(element ?sk)\<lparr>picture := presented env index\<rparr> = ?v"
      using True by (simp_all add: seekVideo_events)
    show ?thesis
    proof (cases "hasContext c")
      case False
      have "asciiFromVideo ?v c (charset cmp) (chosenScheme cmp) (charPixelRef cmp) (contrastRef cmp) = (c, None)"
        using False by (rule asciiFromVideo_no_context)
      with True False sk show ?thesis by (simp add: Let_def)
    next
      case ctx: True
      obtain c' f where raster:
        "asciiFromVideo ?v c (charset cmp) (chosenScheme cmp) (charPixelRef cmp) (contrastRef cmp) = (c', Some f)"
        using asciiFromVideo_context [OF ctx, of ?v "charset cmp" "chosenScheme cmp" "charPixelRef cmp" "contrastRef cmp"]
        by (cases "asciiFromVideo ?v c (charset cmp) (chosenScheme cmp) (charPixelRef cmp) (contrastRef cmp)") auto
      with True ctx sk show ?thesis by (simp add: Let_def)
    qed
  qed
qed

lemma sampleFrames_returns:
  "\<forall>i\<in>set idxs. \<not> pngFails env i \<and> \<not> writeFails env i \<Longrightarrow>
     fst (sampleFrames cmp env fmt dur step n idxs (v, c, tr)) = Returned"
  by (induction idxs arbitrary: v c tr)
     (simp_all add: sampleFrames_Cons Let_def del: sampleFrames.simps(2))

lemma sampleFrames_no_context:
  "\<not> hasContext c \<Longrightarrow> sampleFrames cmp env fmt dur step n idxs (v, c, tr) = (Returned, tr)"
  by (induction idxs arbitrary: v tr)
     (simp_all add: sampleFrames_Cons Let_def del: sampleFrames.simps(2))

lemma sampleFrames_all_seeks_throw:
  "\<forall>i\<in>set idxs. seekThrow env i \<noteq> NoThrow \<Longrightarrow>
     sampleFrames cmp env fmt dur step n idxs (v, c, tr) = (Returned, tr)"
  by (induction idxs arbitrary: v tr)
     (simp_all add: sampleFrames_Cons Let_def del: sampleFrames.simps(2))

lemma sampleFrames_deleteFails:
  "sampleFrames cmp (env\<lparr>deleteFails := df\<rparr>) fmt dur step n idxs (v, c, tr)
     = sampleFrames cmp env fmt dur step n idxs (v, c, tr)"
  by (induction idxs arbitrary: v c tr)
     (simp_all add: sampleFrames_Cons Let_def del: sampleFrames.simps(2))

lemma deleteFrames_eq:
  "deleteFrames env idxs tr
     = tr @ map (\<lambda>i. DeleteFile (frameName i) (\<not> deleteFails env (frameName i))) idxs"
  by (induction idxs arbitrary: tr) simp_all

lemma encodeAndDeliver_shape:
  assumes "encodeAndDeliver cmp env fmt l = (out, l')"
  shows "out \<noteq> Hung \<and> ffmpegCurrent l' = ffmpegCurrent l \<and> totalFrames l' = totalFrames l \<and>
         (\<exists>ext. trace l' = trace l @ ext \<and> deleted ext = [] \<and> written ext = [] \<and>
            ((statuses ext = [] \<and> (\<exists>e. out = Threw e)) \<or>
             (statuses ext = [Encoding] \<and> (\<exists>e. execThrows env = Some e \<and> out = Threw e)) \<or>
             (statuses ext = [Encoding, Delivering] \<and> execThrows env = None \<and>
                (\<exists>e. readThrows env = Some e \<and> out = Threw e)) \<or>
             (statuses ext = [Encoding, Delivering, Done] \<and> execThrows env = None \<and>
                readThrows env = None \<and> out = Returned)))"
proof (cases "totalFrames l = 0")
  case True
  with assms have "out = Threw (JsError ''No frames captured for export'')" "l' = l"
    by (simp_all add: encodeAndDeliver_def)
  then show ?thesis by (simp add: statuses_def)
next
  case False
  show ?thesis
  proof (cases "execThrows env")
    case (Some e)
    with False assms show ?thesis
      by (auto simp add: encodeAndDeliver_def Let_def statuses_def)
  next
    case None
    note exec = None
    show ?thesis
    proof (cases "readThrows env")
      case (Some e)
      with False exec assms show ?thesis
        by (auto simp add: encodeAndDeliver_def Let_def statuses_def)
    next
      case None
      with False exec assms show ?thesis
        by (auto simp add: encodeAndDeliver_def Let_def statuses_def)
    qed
  qed
qed

lemma all_same_replicate: "set xs \<subseteq> {a} \<Longrightarrow> xs = replicate (length xs) a"
  by (induction xs) auto

lemma samplePhase_shape:
  assumes run: "samplePhase cmp env fmt sv d l = (out, l')"
  shows "out \<noteq> Hung \<and> ffmpegCurrent l' = ffmpegCurrent l \<and>
         totalFrames l' = min (nat \<lceil>fl (d * real (fps (tierConfig cmp)))\<rceil>) (if isFreeTier cmp then 300 else 600) \<and>
         (\<exists>ext k tail. trace l' = trace l @ ext \<and> deleted ext = [] \<and>
            set (written ext) \<subseteq> frameName ` {0..<totalFrames l'} \<and>
            (totalFrames l' < nat \<lceil>fl (d * real (fps (tierConfig cmp)))\<rceil> \<longrightarrow>
               SetExportState
                 \<lparr>status = Sampling, format = Some fmt, progress = fl 0.1,
                  message = Some (''Video truncated to '' @ showNat (totalFrames l')
                                  @ '' frames for faster processing'')\<rparr> \<in> set ext) \<and>
            statuses ext = replicate k Sampling @ tail \<and>
            ((tail = [] \<and> (\<exists>e. out = Threw e)) \<or>
             (tail = [Encoding] \<and> (\<exists>e. execThrows env = Some e \<and> out = Threw e)) \<or>
             (tail = [Encoding, Delivering] \<and> execThrows env = None \<and>
                (\<exists>e. readThrows env = Some e \<and> out = Threw e)) \<or>
             (tail = [Encoding, Delivering, Done] \<and> execThrows env = None \<and>
                readThrows env = None \<and> out = Returned)))"
    and "exportContext env \<Longrightarrow> \<forall>i. \<not> pngFails env i \<and> \<not> writeFails env i \<Longrightarrow>
         execThrows env = None \<Longrightarrow> readThrows env = None \<Longrightarrow> 0 < d \<Longrightarrow> out = Returned"
    and "exportContext env \<Longrightarrow> \<forall>i. \<not> pngFails env i \<and> \<not> writeFails env i \<Longrightarrow> 0 < d \<Longrightarrow>
         Encoding \<in> set (statuses (trace l'))"
proof -
  define ideal where "ideal = nat \<lceil>fl (d * real (fps (tierConfig cmp)))\<rceil>"
  define cnt where "cnt = min ideal (if isFreeTier cmp then 300 else 600)"
  define stp where "stp = (if cnt > 1 then fl (d / real (cnt - 1)) else 0)"
  define notice where "notice = SetExportState
         \<lparr>status = Sampling, format = Some fmt, progress = fl 0.1,
          message = Some (''Video truncated to '' @ showNat cnt @ '' frames for faster processing'')\<rparr>"
  define l2 where "l2 = (if ideal > cnt
                          then (l\<lparr>totalFrames := cnt\<rparr>)\<lparr>trace := trace (l\<lparr>totalFrames := cnt\<rparr>) @ [notice]\<rparr>
                          else l\<lparr>totalFrames := cnt\<rparr>)"
  define buf where "buf = \<lparr>hasContext = bufferContext env, canvasWidth = 300, canvasHeight = 150,
                              pixels = (\<lambda>_. 0)\<rparr>"
  have unfolded: "samplePhase cmp env fmt sv d l =
    (if \<not> exportContext env then (Threw (JsError ''Canvas context unavailable''), l2)
     else case sampleFrames cmp env fmt d stp cnt [0..<cnt]
                  (sv, buf, trace l2) of
            (Returned, tr) \<Rightarrow> encodeAndDeliver cmp env fmt (l2\<lparr>trace := tr\<rparr>)
          | (out, tr) \<Rightarrow> (out, l2\<lparr>trace := tr\<rparr>))"
    unfolding samplePhase_def ideal_def cnt_def stp_def l2_def notice_def buf_def Let_def by (rule refl)
  obtain pre j where l2: "totalFrames l2 = cnt" "ffmpegCurrent l2 = ffmpegCurrent l"
      "trace l2 = trace l @ pre" "statuses pre = replicate j Sampling" "deleted pre = []" "written pre = []"
      "cnt < ideal \<longrightarrow> notice \<in> set pre"
  proof (cases "ideal > cnt")
    case True
    show ?thesis
      by (rule that [of "[notice]" 1]) (simp_all add: l2_def True notice_def statuses_def)
  next
    case False
    show ?thesis
      by (rule that [of "[]" 0]) (simp_all add: l2_def False statuses_def)
  qed
  obtain out0 tr0 where sf: "sampleFrames cmp env fmt d stp cnt [0..<cnt]
                (sv, buf, trace l2) = (out0, tr0)"
    by (cases "sampleFrames cmp env fmt d stp cnt [0..<cnt]
                (sv, buf, trace l2)")
  show "out \<noteq> Hung \<and> ffmpegCurrent l' = ffmpegCurrent l \<and>
         totalFrames l' = min (nat \<lceil>fl (d * real (fps (tierConfig cmp)))\<rceil>) (if isFreeTier cmp then 300 else 600) \<and>
         (\<exists>ext k tail. trace l' = trace l @ ext \<and> deleted ext = [] \<and>
            set (written ext) \<subseteq> frameName ` {0..<totalFrames l'} \<and>
            (totalFrames l' < nat \<lceil>fl (d * real (fps (tierConfig cmp)))\<rceil> \<longrightarrow>
               SetExportState
                 \<lparr>status = Sampling, format = Some fmt, progress = fl 0.1,
                  message = Some (''Video truncated to '' @ showNat (totalFrames l')
                                  @ '' frames for faster processing'')\<rparr> \<in> set ext) \<and>
            statuses ext = replicate k Sampling @ tail \<and>
            ((tail = [] \<and> (\<exists>e. out = Threw e)) \<or>
             (tail = [Encoding] \<and> (\<exists>e. execThrows env = Some e \<and> out = Threw e)) \<or>
             (tail = [Encoding, Delivering] \<and> execThrows env = None \<and>
                (\<exists>e. readThrows env = Some e \<and> out = Threw e)) \<or>
             (tail = [Encoding, Delivering, Done] \<and> execThrows env = None \<and>
                readThrows env = None \<and> out = Returned)))"
  proof (cases "exportContext env")
    case False
    with run unfolded have res: "out = Threw (JsError ''Canvas context unavailable'')" "l' = l2" by simp_all
    have tf: "totalFrames l' = cnt" using res l2(1) by simp
    show ?thesis
      unfolding tf ideal_def [symmetric] cnt_def [symmetric] notice_def [symmetric]
      using res l2
      by (intro conjI exI [of _ pre] exI [of _ j] exI [of _ "[]"]) simp_all
  next
    case ctx: True
    obtain ext where ext: "out0 \<noteq> Hung" "tr0 = trace l2 @ ext" "set (statuses ext) \<subseteq> {Sampling}"
        "deleted ext = []" "set (written ext) \<subseteq> frameName ` set [0..<cnt]"
      using sampleFrames_shape [of cmp env fmt d stp cnt "[0..<cnt]" sv buf "trace l2"]
      unfolding sf by auto
    have rep: "statuses (pre @ ext) = replicate (j + length (statuses ext)) Sampling"
      using all_same_replicate [OF ext(3)] l2(4) by (simp add: statuses_append replicate_add)
    have tr0: "tr0 = trace l @ (pre @ ext)" using ext(2) l2(3) by simp
    have del0: "deleted (pre @ ext) = []" using ext(4) l2(5) by (simp add: deleted_append)
    have wr0: "set (written (pre @ ext)) \<subseteq> frameName ` {0..<cnt}"
      using ext(5) l2(6) by (simp add: written_append)
    have nt0: "cnt < ideal \<longrightarrow> notice \<in> set (pre @ ext)" using l2(7) by simp
    show ?thesis
    proof (cases out0)
      case Hung
      with ext(1) show ?thesis by simp
    next
      case (Threw e)
      with run unfolded ctx sf have res: "out = Threw e" "l' = l2\<lparr>trace := tr0\<rparr>" by simp_all
      have tf: "totalFrames l' = cnt" using res l2(1) by simp
      show ?thesis
        unfolding tf ideal_def [symmetric] cnt_def [symmetric] notice_def [symmetric]
        using res l2(1,2) tr0 del0 wr0 rep nt0
        by (intro conjI exI [of _ "pre @ ext"] exI [of _ "j + length (statuses ext)"] exI [of _ "[]"]) simp_all
    next
      case Returned
      with run unfolded ctx sf have enc: "encodeAndDeliver cmp env fmt (l2\<lparr>trace := tr0\<rparr>) = (out, l')" by simp
      from encodeAndDeliver_shape [OF enc]
      obtain ext2 where e2: "out \<noteq> Hung" "ffmpegCurrent l' = ffmpegCurrent l2" "totalFrames l' = cnt"
          "trace l' = tr0 @ ext2" "deleted ext2 = []" "written ext2 = []"
          "(statuses ext2 = [] \<and> (\<exists>e. out = Threw e)) \<or>
             (statuses ext2 = [Encoding] \<and> (\<exists>e. execThrows env = Some e \<and> out = Threw e)) \<or>
             (statuses ext2 = [Encoding, Delivering] \<and> execThrows env = None \<and>
                (\<exists>e. readThrows env = Some e \<and> out = Threw e)) \<or>
             (statuses ext2 = [Encoding, Delivering, Done] \<and> execThrows env = None \<and>
                readThrows env = None \<and> out = Returned)"
        using l2(1) by auto
      have "trace l' = trace l @ ((pre @ ext) @ ext2)" using e2(4) tr0 by simp
      moreover have "deleted ((pre @ ext) @ ext2) = []" using del0 e2(5) by (simp add: deleted_append)
      moreover have "set (written ((pre @ ext) @ ext2)) \<subseteq> frameName ` {0..<cnt}"
        using wr0 e2(6) by (simp add: written_append)
      moreover have "statuses ((pre @ ext) @ ext2) = replicate (j + length (statuses ext)) Sampling @ statuses ext2"
        using rep by (simp add: statuses_append)
      moreover have "cnt < ideal \<longrightarrow> notice \<in> set ((pre @ ext) @ ext2)" using nt0 by auto
      ultimately show ?thesis
        unfolding e2(3) ideal_def [symmetric] cnt_def [symmetric] notice_def [symmetric]
        using e2(1,2,7) l2(2)
        by (intro conjI exI [of _ "(pre @ ext) @ ext2"] exI [of _ "j + length (statuses ext)"]
                  exI [of _ "statuses ext2"]) simp_all
    qed
  qed
  have reach: "totalFrames (l2\<lparr>trace := tr0\<rparr>) \<noteq> 0"
               "encodeAndDeliver cmp env fmt (l2\<lparr>trace := tr0\<rparr>) = (out, l')"
    if ctx: "exportContext env" and nf: "\<forall>i. \<not> pngFails env i \<and> \<not> writeFails env i"
      and pos: "0 < d"
  proof -
    have "fst (sampleFrames cmp env fmt d stp cnt [0..<cnt]
                (sv, buf, trace l2)) = Returned"
      using nf by (intro sampleFrames_returns) simp
    then have out0: "out0 = Returned" using sf by simp
    have "0 < fps (tierConfig cmp)"
      by (simp add: tierConfig_def FREE_EXPORT_CONFIG_def PREMIUM_EXPORT_CONFIG_def)
    then have "0 < d * real (fps (tierConfig cmp))" using pos by simp
    then have "0 < fl (d * real (fps (tierConfig cmp)))" by (rule fl_pos)
    then have "0 < ideal" unfolding ideal_def by simp
    then have "cnt \<noteq> 0" unfolding cnt_def by simp
    then have nz: "totalFrames (l2\<lparr>trace := tr0\<rparr>) \<noteq> 0" using l2(1) by simp
    have enc: "encodeAndDeliver cmp env fmt (l2\<lparr>trace := tr0\<rparr>) = (out, l')"
      using run unfolded ctx sf out0 by simp
    show "totalFrames (l2\<lparr>trace := tr0\<rparr>) \<noteq> 0" by (rule nz)
    show "encodeAndDeliver cmp env fmt (l2\<lparr>trace := tr0\<rparr>) = (out, l')" by (rule enc)
  qed
  show "out = Returned"
    if ctx: "exportContext env" and nf: "\<forall>i. \<not> pngFails env i \<and> \<not> writeFails env i"
      and ex: "execThrows env = None" and rd: "readThrows env = None" and pos: "0 < d"
    using reach(1) [OF ctx nf pos] reach(2) [OF ctx nf pos] ex rd
    by (simp add: encodeAndDeliver_def Let_def)
  show "Encoding \<in> set (statuses (trace l'))"
    if ctx: "exportContext env" and nf: "\<forall>i. \<not> pngFails env i \<and> \<not> writeFails env i"
      and pos: "0 < d"
    using reach(1) [OF ctx nf pos] reach(2) [OF ctx nf pos]
    by (auto simp add: encodeAndDeliver_def Let_def statuses_def exportStates_append
             split: option.splits)
qed

lemma exportBody_load_fails:
  assumes "\<not> (ffmpegRef cmp \<or> \<not> loadFails env)"
  shows "exportBody cmp env fmt =
     (Threw (JsError (''Failed to initialize video encoder. Please ensure your browser supports ''
                     @ ''SharedArrayBuffer and CORS headers are properly configured.'')),
      \<lparr>trace = [SetExportState \<lparr>status = Initializing, format = Some fmt, progress = fl 0.05,
                                        message = Some ''Loading encoder''\<rparr>], totalFrames = 0, outputName = None, objectUrl = False,
              ffmpegCurrent = False\<rparr>)"
proof -
  have ens: "ensureFfmpeg (ffmpegRef cmp) (loadFails env) = Inl (JsError (''Failed to initialize video encoder. Please ensure your browser supports ''
                     @ ''SharedArrayBuffer and CORS headers are properly configured.''))"
    using assms by (simp add: ensureFfmpeg_def)
  show ?thesis
    unfolding exportBody_def Let_def ens using assms by simp
qed

lemma exportBody_no_metadata:
  assumes "ffmpegRef cmp \<or> \<not> loadFails env" "metadata env = None"
  shows "exportBody cmp env fmt =
     (Threw (JsError ''Unable to read video for export''),
             \<lparr>trace = [SetExportState \<lparr>status = Initializing, format = Some fmt, progress = fl 0.05,
                                        message = Some ''Loading encoder''\<rparr>,
                        SetExportState \<lparr>status = Sampling, format = Some fmt, progress = fl 0.1,
                                        message = Some ''Sampling frames''\<rparr>],
              totalFrames = 0, outputName = None, objectUrl = True, ffmpegCurrent = True\<rparr>)"
proof -
  have ens: "ensureFfmpeg (ffmpegRef cmp) (loadFails env) = Inr True"
    using assms(1) by (auto simp add: ensureFfmpeg_def)
  show ?thesis
    unfolding exportBody_def Let_def ens using assms(2) by simp
qed

lemma exportBody_no_duration:
  assumes "ffmpegRef cmp \<or> \<not> loadFails env" "metadata env = Some sv" "\<forall>d. duration sv = Num d \<longrightarrow> d \<le> 0"
  shows "exportBody cmp env fmt =
     (Threw (JsError ''Video duration unavailable for export''),
             \<lparr>trace = [SetExportState \<lparr>status = Initializing, format = Some fmt, progress = fl 0.05,
                                        message = Some ''Loading encoder''\<rparr>,
                        SetExportState \<lparr>status = Sampling, format = Some fmt, progress = fl 0.1,
                                        message = Some ''Sampling frames''\<rparr>],
              totalFrames = 0, outputName = None, objectUrl = True, ffmpegCurrent = True\<rparr>)"
proof -
  have ens: "ensureFfmpeg (ffmpegRef cmp) (loadFails env) = Inr True"
    using assms(1) by (auto simp add: ensureFfmpeg_def)
  show ?thesis
    unfolding exportBody_def Let_def ens using assms(2,3) by (cases "duration sv") simp_all
qed

text \<open>The priming returns unless \<open>play()\<close> never settles, the second assignment of
  \<open>currentTime\<close> throws, or the element has no data and \<open>canplay\<close> never fires.\<close>

lemma primeVideo_returns:
  assumes "priming env = PrimePlayed \<or> priming env = PrimeCaught"
    and "hasCurrentData env \<or> canplayFires env"
  shows "\<exists>pv. primeVideo env sv = (Returned, pv)"
  using assms by (auto simp add: primeVideo_def Let_def)

lemma exportBody_sampling:
  assumes "ffmpegRef cmp \<or> \<not> loadFails env" "metadata env = Some sv" "duration sv = Num d" "0 < d"
    and "primeVideo env sv = (Returned, pv)"
  shows "exportBody cmp env fmt =
           samplePhase cmp env fmt pv d
             \<lparr>trace = [SetExportState \<lparr>status = Initializing, format = Some fmt, progress = fl 0.05,
                                        message = Some ''Loading encoder''\<rparr>,
                        SetExportState \<lparr>status = Sampling, format = Some fmt, progress = fl 0.1,
                                        message = Some ''Sampling frames''\<rparr>],
              totalFrames = 0, outputName = None, objectUrl = True, ffmpegCurrent = True\<rparr>"
proof -
  have ens: "ensureFfmpeg (ffmpegRef cmp) (loadFails env) = Inr True"
    using assms(1) by (auto simp add: ensureFfmpeg_def)
  show ?thesis
    unfolding exportBody_def Let_def ens using assms(2-5) by simp
qed

lemma exportBody_unprimed:
  assumes "ffmpegRef cmp \<or> \<not> loadFails env" "metadata env = Some sv" "duration sv = Num d" "0 < d"
    and "primeVideo env sv = (out, pv)" "out \<noteq> Returned"
  shows "exportBody cmp env fmt =
           (out,
             \<lparr>trace = [SetExportState \<lparr>status = Initializing, format = Some fmt, progress = fl 0.05,
                                        message = Some ''Loading encoder''\<rparr>,
                        SetExportState \<lparr>status = Sampling, format = Some fmt, progress = fl 0.1,
                                        message = Some ''Sampling frames''\<rparr>],
              totalFrames = 0, outputName = None, objectUrl = True, ffmpegCurrent = True\<rparr>)"
proof -
  have ens: "ensureFfmpeg (ffmpegRef cmp) (loadFails env) = Inr True"
    using assms(1) by (auto simp add: ensureFfmpeg_def)
  show ?thesis
    unfolding exportBody_def Let_def ens using assms(2-6) by (cases out) simp_all
qed

text \<open>What the \<open>try\<close> block leaves behind, however it ends.\<close>

lemma exportBody_shape:
  assumes run: "exportBody cmp env fmt = (out, l)"
  shows "deleted (trace l) = [] \<and>
         set (written (trace l)) \<subseteq> frameName ` {0..<totalFrames l} \<and>
         totalFrames l \<le> (if isFreeTier cmp then 300 else 600) \<and>
         (\<not> ffmpegCurrent l \<or> out = Hung \<longrightarrow> totalFrames l = 0 \<and> outputName l = None) \<and>
         (\<exists>k tail. statuses (trace l) = Initializing # replicate k Sampling @ tail \<and>
            (tail \<noteq> [] \<longrightarrow> 0 < k) \<and>
            ((tail = [] \<and> ((\<exists>e. out = Threw e) \<or> out = Hung)) \<or>
             (tail = [Encoding] \<and> (\<exists>e. execThrows env = Some e \<and> out = Threw e)) \<or>
             (tail = [Encoding, Delivering] \<and> execThrows env = None \<and>
                (\<exists>e. readThrows env = Some e \<and> out = Threw e)) \<or>
             (tail = [Encoding, Delivering, Done] \<and> execThrows env = None \<and>
                readThrows env = None \<and> out = Returned)))"
proof -
  let ?init = "SetExportState \<lparr>status = Initializing, format = Some fmt, progress = fl 0.05,
                                message = Some ''Loading encoder''\<rparr>"
  let ?samp = "SetExportState \<lparr>status = Sampling, format = Some fmt, progress = fl 0.1,
                                message = Some ''Sampling frames''\<rparr>"
  let ?l0 = "\<lparr>trace = [?init], totalFrames = 0, outputName = None, objectUrl = False,
              ffmpegCurrent = ffmpegRef cmp\<rparr>"
  let ?l1 = "\<lparr>trace = [?init, ?samp], totalFrames = 0, outputName = None, objectUrl = True,
              ffmpegCurrent = True\<rparr>"
  have early: ?thesis if "(\<exists>e. out = Threw e) \<or> out = Hung" "l = ?l1"
    using that by (intro conjI exI [of _ 1] exI [of _ "[]"]) (simp_all add: statuses_def)
  show ?thesis
  proof (cases "ffmpegRef cmp \<or> \<not> loadFails env")
    case False
    have "\<exists>e. out = Threw e" "l = ?l0\<lparr>ffmpegCurrent := False\<rparr>"
      using run exportBody_load_fails [OF False, of fmt] by auto
    then show ?thesis
      by (intro conjI exI [of _ 0] exI [of _ "[]"]) (auto simp add: statuses_def)
  next
    case enc: True
    show ?thesis
    proof (cases "metadata env")
      case None
      have "(\<exists>e. out = Threw e) \<or> out = Hung" "l = ?l1"
        using run exportBody_no_metadata [OF enc None, of fmt] by auto
      then show ?thesis by (rule early)
    next
      case (Some sv)
      note meta = Some
      have bad: ?thesis if "\<forall>d. duration sv = Num d \<longrightarrow> d \<le> 0"
      proof -
        have "(\<exists>e. out = Threw e) \<or> out = Hung" "l = ?l1"
          using run exportBody_no_duration [OF enc meta that, of fmt] by auto
        then show ?thesis by (rule early)
      qed
      show ?thesis
      proof (cases "\<exists>d. duration sv = Num d \<and> 0 < d")
        case False
        then have "\<forall>d. duration sv = Num d \<longrightarrow> d \<le> 0" by auto
        then show ?thesis by (rule bad)
      next
        case True
        then obtain d where d: "duration sv = Num d" "0 < d" by blast
        obtain pout pv where prime: "primeVideo env sv = (pout, pv)"
          by (cases "primeVideo env sv")
        show ?thesis
        proof (cases "pout = Returned")
          case False
          have res: "out = pout" "l = ?l1"
            using run exportBody_unprimed [OF enc meta d prime False, where fmt = fmt] by simp_all
          have "(\<exists>e. out = Threw e) \<or> out = Hung"
            using False res(1) by (cases pout) simp_all
          then show ?thesis using res(2) by (rule early)
        next
          case primed: True
          have sp: "samplePhase cmp env fmt pv d ?l1 = (out, l)"
            using run exportBody_sampling [OF enc meta d, where pv = pv and fmt = fmt] prime primed by simp
          note P = samplePhase_shape(1) [OF sp]
          have p12: "out \<noteq> Hung" "ffmpegCurrent l" using P by simp_all
          have cap: "totalFrames l \<le> (if isFreeTier cmp then 300 else 600)" using P by simp
          have "\<exists>ext k tail. trace l = trace ?l1 @ ext \<and> deleted ext = [] \<and>
              set (written ext) \<subseteq> frameName ` {0..<totalFrames l} \<and>
              statuses ext = replicate k Sampling @ tail \<and>
              ((tail = [] \<and> (\<exists>e. out = Threw e)) \<or>
             (tail = [Encoding] \<and> (\<exists>e. execThrows env = Some e \<and> out = Threw e)) \<or>
             (tail = [Encoding, Delivering] \<and> execThrows env = None \<and>
                (\<exists>e. readThrows env = Some e \<and> out = Threw e)) \<or>
             (tail = [Encoding, Delivering, Done] \<and> execThrows env = None \<and>
                readThrows env = None \<and> out = Returned))"
            using P by blast
          then obtain ext k tail where p: "trace l = trace ?l1 @ ext" "deleted ext = []"
            "set (written ext) \<subseteq> frameName ` {0..<totalFrames l}"
            "statuses ext = replicate k Sampling @ tail"
            "((tail = [] \<and> (\<exists>e. out = Threw e)) \<or>
             (tail = [Encoding] \<and> (\<exists>e. execThrows env = Some e \<and> out = Threw e)) \<or>
             (tail = [Encoding, Delivering] \<and> execThrows env = None \<and>
                (\<exists>e. readThrows env = Some e \<and> out = Threw e)) \<or>
             (tail = [Encoding, Delivering, Done] \<and> execThrows env = None \<and>
                readThrows env = None \<and> out = Returned))"
            by blast
          have "statuses (trace l) = Initializing # replicate (Suc k) Sampling @ tail"
            using p(1,4) by (simp add: statuses_append) (simp add: statuses_def)
          moreover have "deleted (trace l) = []" using p(1,2) by (simp add: deleted_append)
          moreover have "set (written (trace l)) \<subseteq> frameName ` {0..<totalFrames l}"
            using p(1,3) by (simp add: written_append)
          moreover have "((tail = [] \<and> ((\<exists>e. out = Threw e) \<or> out = Hung)) \<or>
             (tail = [Encoding] \<and> (\<exists>e. execThrows env = Some e \<and> out = Threw e)) \<or>
             (tail = [Encoding, Delivering] \<and> execThrows env = None \<and>
                (\<exists>e. readThrows env = Some e \<and> out = Threw e)) \<or>
             (tail = [Encoding, Delivering, Done] \<and> execThrows env = None \<and>
                readThrows env = None \<and> out = Returned))"
            using p(5) by blast
          moreover note p12 cap
          ultimately show ?thesis
            by (intro conjI exI [of _ "Suc k"] exI [of _ tail]) simp_all
        qed
      qed
    qed
  qed
qed

lemma encodeAndDeliver_deleteFails:
  "encodeAndDeliver cmp (env\<lparr>deleteFails := df\<rparr>) fmt l = encodeAndDeliver cmp env fmt l"
  by (simp add: encodeAndDeliver_def Let_def split: option.splits)

lemma samplePhase_deleteFails:
  "samplePhase cmp (env\<lparr>deleteFails := df\<rparr>) fmt sv d l = samplePhase cmp env fmt sv d l"
  unfolding samplePhase_def Let_def sampleFrames_deleteFails encodeAndDeliver_deleteFails
  by simp

lemma primeVideo_deleteFails:
  "primeVideo (env\<lparr>deleteFails := df\<rparr>) sv = primeVideo env sv"
  by (simp add: primeVideo_def Let_def split: prime_outcome.splits)

lemma exportBody_deleteFails:
  "exportBody cmp (env\<lparr>deleteFails := df\<rparr>) fmt = exportBody cmp env fmt"
  unfolding exportBody_def Let_def samplePhase_deleteFails primeVideo_deleteFails
  by (simp split: sum.splits option.splits jsnum.splits)

lemma exportStates_deletes: "exportStates (map (\<lambda>i. DeleteFile (f i) (q i)) idxs) = []"
  by (induction idxs) simp_all

lemma written_deletes: "written (map (\<lambda>i. DeleteFile (f i) (q i)) idxs) = []"
  by (induction idxs) simp_all

lemma deleted_deletes: "deleted (map (\<lambda>i. DeleteFile (f i) (q i)) idxs) = map f idxs"
  by (induction idxs) simp_all

lemma finallyBlock_fields:
  "totalFrames (finallyBlock env l) = totalFrames l"
  "outputName (finallyBlock env l) = outputName l"
  "ffmpegCurrent (finallyBlock env l) = ffmpegCurrent l"
  by (simp_all add: finallyBlock_def Let_def)

lemma finallyBlock_trace:
  "trace (finallyBlock env l) =
     trace l @
     (if ffmpegCurrent l then
        map (\<lambda>i. DeleteFile (frameName i) (\<not> deleteFails env (frameName i))) [0..<totalFrames l] @
        (case outputName l of None \<Rightarrow> [] | Some n \<Rightarrow> [DeleteFile n (\<not> deleteFails env n)])
      else [])"
  by (simp add: finallyBlock_def Let_def deleteFrames_eq split: option.splits)

lemma finallyBlock_exportStates: "exportStates (trace (finallyBlock env l)) = exportStates (trace l)"
  by (simp add: finallyBlock_trace exportStates_append exportStates_deletes split: option.splits)

lemma finallyBlock_written: "written (trace (finallyBlock env l)) = written (trace l)"
  by (simp add: finallyBlock_trace written_append written_deletes split: option.splits)

lemma finallyBlock_deleted:
  "deleted (trace (finallyBlock env l)) =
     deleted (trace l) @
     (if ffmpegCurrent l then
        map frameName [0..<totalFrames l] @ (case outputName l of None \<Rightarrow> [] | Some n \<Rightarrow> [n])
      else [])"
  by (simp add: finallyBlock_trace deleted_append deleted_deletes split: option.splits)

lemma catchBlock_fields:
  "totalFrames (catchBlock fmt e l) = totalFrames l"
  "outputName (catchBlock fmt e l) = outputName l"
  "ffmpegCurrent (catchBlock fmt e l) = ffmpegCurrent l"
  "written (trace (catchBlock fmt e l)) = written (trace l)"
  "deleted (trace (catchBlock fmt e l)) = deleted (trace l)"
  "exportStates (trace (catchBlock fmt e l)) =
     exportStates (trace l) @ [\<lparr>status = Error, format = Some fmt, progress = 0,
                                 message = Some (errorMessageFor e)\<rparr>]"
  by (simp_all add: catchBlock_def written_append deleted_append exportStates_append)

text \<open>A run with a selected file: the \<open>try\<close> block, the \<open>catch\<close> block if it threw, and
  the \<open>finally\<close> block.\<close>

lemma handleExport_run:
  assumes "selectedFile cmp" "exportBody cmp env fmt = (out, l)" "out \<noteq> Hung"
  shows "handleExport cmp env fmt
           = finallyBlock env (case out of Threw e \<Rightarrow> catchBlock fmt e l | _ \<Rightarrow> l)"
  using assms by (cases out) (simp_all add: handleExport_def)

text \<open>A run left hanging stops where it is.\<close>

lemma handleExport_hung:
  assumes "selectedFile cmp" "exportBody cmp env fmt = (Hung, l)"
  shows "handleExport cmp env fmt = l"
  using assms by (simp add: handleExport_def)

lemma exportStates_member: "SetExportState s \<in> set tr \<Longrightarrow> s \<in> set (exportStates tr)"
  by (induction tr rule: exportStates.induct) auto

lemma handleExport_sampling:
  assumes sel: "selectedFile cmp" and enc: "ffmpegRef cmp \<or> \<not> loadFails env"
    and meta: "metadata env = Some sv" and dur: "duration sv = Num d" and pos: "0 < d"
    and prime: "primeVideo env sv = (Returned, pv)"
    and sp: "samplePhase cmp env fmt pv d
               \<lparr>trace = [SetExportState \<lparr>status = Initializing, format = Some fmt, progress = fl 0.05,
                                        message = Some ''Loading encoder''\<rparr>,
                        SetExportState \<lparr>status = Sampling, format = Some fmt, progress = fl 0.1,
                                        message = Some ''Sampling frames''\<rparr>],
              totalFrames = 0, outputName = None, objectUrl = True, ffmpegCurrent = True\<rparr> = (out, l)"
  shows "handleExport cmp env fmt
           = finallyBlock env (case out of Threw e \<Rightarrow> catchBlock fmt e l | _ \<Rightarrow> l)"
proof -
  have body: "exportBody cmp env fmt = (out, l)"
    using exportBody_sampling [OF enc meta dur pos prime, where fmt = fmt] sp by simp
  have "out \<noteq> Hung" using samplePhase_shape(1) [OF sp] by simp
  with sel body show ?thesis by (rule handleExport_run)
qed

lemma statuses_after_try:
  "set (statuses (trace l))
     \<subseteq> set (statuses (trace (finallyBlock env (case out of Threw e \<Rightarrow> catchBlock fmt e l | _ \<Rightarrow> l))))"
  by (cases out) (auto simp add: statuses_def finallyBlock_exportStates catchBlock_fields)

text \<open>Where no frame fails to be written, a run that gets to sample gets to encode.\<close>

lemma reaches_encoding:
  assumes sel: "selectedFile cmp" and enc: "ffmpegRef cmp \<or> \<not> loadFails env"
    and meta: "metadata env = Some sv" and dur: "duration sv = Num d" and pos: "0 < d"
    and prime: "primeVideo env sv = (Returned, pv)"
    and ctx: "exportContext env" and nf: "\<forall>i. \<not> pngFails env i \<and> \<not> writeFails env i"
  shows "Encoding \<in> set (statuses (trace (handleExport cmp env fmt)))"
proof -
  let ?l1 = "\<lparr>trace = [SetExportState \<lparr>status = Initializing, format = Some fmt, progress = fl 0.05,
                                        message = Some ''Loading encoder''\<rparr>,
                        SetExportState \<lparr>status = Sampling, format = Some fmt, progress = fl 0.1,
                                        message = Some ''Sampling frames''\<rparr>],
              totalFrames = 0, outputName = None, objectUrl = True, ffmpegCurrent = True\<rparr>"
  obtain out l where sp: "samplePhase cmp env fmt pv d ?l1 = (out, l)"
    by (cases "samplePhase cmp env fmt pv d ?l1")
  have "Encoding \<in> set (statuses (trace l))"
    by (rule samplePhase_shape(3) [OF sp ctx nf pos])
  then show ?thesis
    unfolding handleExport_sampling [OF sel enc meta dur pos prime sp]
    using statuses_after_try [where l = l and env = env and out = out and fmt = fmt] by blast
qed

lemma tier_policy:
  "fps (tierConfig cmp) = (case entitlement cmp of free \<Rightarrow> 10 | premium \<Rightarrow> 24)"
  "(if isFreeTier cmp then 300 else 600) = (case entitlement cmp of free \<Rightarrow> 300 | premium \<Rightarrow> (600::nat))"
  by (cases "entitlement cmp";
      simp add: tierConfig_def isFreeTier_def FREE_EXPORT_CONFIG_def PREMIUM_EXPORT_CONFIG_def)+

text \<open>
  C1. Cleanup. In every run, whether it succeeds or fails and whichever phase fails,
  the deletes attempted are exactly those of \<open>frame_0000.png\<close> to \<open>frame_{N-1}.png\<close>, in
  order, \<open>N\<close> being the frame count the run computed (0 if it never got that far),
  followed by the output file if it was named. Every file written is among them. The
  deletes are best effort: which of them fail changes no export state the run reports.
  (A run left hanging before the frame count has written nothing and named no output.)
\<close>

theorem cleanup_attempts_every_delete:
  "deleted (trace (handleExport cmp env fmt)) =
     map frameName [0..<totalFrames (handleExport cmp env fmt)] @
     (case outputName (handleExport cmp env fmt) of None \<Rightarrow> [] | Some n \<Rightarrow> [n]) \<and>
   set (written (trace (handleExport cmp env fmt))) \<subseteq> set (deleted (trace (handleExport cmp env fmt))) \<and>
   exportStates (trace (handleExport cmp (env\<lparr>deleteFails := df\<rparr>) fmt))
     = exportStates (trace (handleExport cmp env fmt))"
proof (cases "selectedFile cmp")
  case False
  then show ?thesis by (simp add: handleExport_def)
next
  case True
  obtain out l where body: "exportBody cmp env fmt = (out, l)"
    by (cases "exportBody cmp env fmt")
  have body': "exportBody cmp (env\<lparr>deleteFails := df\<rparr>) fmt = (out, l)"
    using body by (simp add: exportBody_deleteFails)
  note shape = exportBody_shape [OF body]
  have del: "deleted (trace l) = []" using shape by simp
  have wr: "set (written (trace l)) \<subseteq> frameName ` {0..<totalFrames l}" using shape by simp
  show ?thesis
  proof (cases "out = Hung")
    case hung: True
    have run: "handleExport cmp env fmt = l"
      using body hung by (intro handleExport_hung [OF True]) simp
    have run': "handleExport cmp (env\<lparr>deleteFails := df\<rparr>) fmt = l"
      using body' hung by (intro handleExport_hung [OF True]) simp
    have none: "totalFrames l = 0" "outputName l = None" using shape hung by simp_all
    show ?thesis
      unfolding run run' using del wr none by simp
  next
    case False
    define l2 where "l2 = (case out of Threw e \<Rightarrow> catchBlock fmt e l | _ \<Rightarrow> l)"
    have run: "handleExport cmp env fmt = finallyBlock env l2"
      unfolding l2_def by (rule handleExport_run [OF True body False])
    have run': "handleExport cmp (env\<lparr>deleteFails := df\<rparr>) fmt = finallyBlock (env\<lparr>deleteFails := df\<rparr>) l2"
      unfolding l2_def by (rule handleExport_run [OF True body' False])
    have fields: "totalFrames l2 = totalFrames l" "outputName l2 = outputName l"
        "ffmpegCurrent l2 = ffmpegCurrent l" "written (trace l2) = written (trace l)"
        "deleted (trace l2) = deleted (trace l)"
      unfolding l2_def by (cases out; simp add: catchBlock_fields)+
    have noenc: "\<not> ffmpegCurrent l \<Longrightarrow> totalFrames l = 0 \<and> outputName l = None" using shape by simp
    have d: "deleted (trace (finallyBlock env l2)) =
               map frameName [0..<totalFrames l] @ (case outputName l of None \<Rightarrow> [] | Some n \<Rightarrow> [n])"
      using noenc by (cases "ffmpegCurrent l") (simp_all add: finallyBlock_deleted fields del)
    have w: "set (written (trace (finallyBlock env l2))) \<subseteq> set (deleted (trace (finallyBlock env l2)))"
      unfolding d using wr by (auto simp add: finallyBlock_written fields)
    show ?thesis
      unfolding run run' using d w
      by (simp add: finallyBlock_fields fields finallyBlock_exportStates)
  qed
qed

text \<open>
  C5. A job that fails during encoding (the encoding status was set and the encoder
  call threw) has gone initializing, sampling, encoding, error. It never reports
  delivering or done, and its last export state is the error state with progress 0.
\<close>

theorem encoding_failure_transitions:
  assumes enc: "Encoding \<in> set (statuses (trace (handleExport cmp env fmt)))"
    and thrown: "execThrows env = Some e"
  shows "(\<exists>k. statuses (trace (handleExport cmp env fmt))
               = Initializing # replicate (Suc k) Sampling @ [Encoding, Error]) \<and>
         Delivering \<notin> set (statuses (trace (handleExport cmp env fmt))) \<and>
         Done \<notin> set (statuses (trace (handleExport cmp env fmt))) \<and>
         last (exportStates (trace (handleExport cmp env fmt)))
           = \<lparr>status = Error, format = Some fmt, progress = 0, message = Some (errorMessageFor e)\<rparr>"
proof -
  have sel: "selectedFile cmp"
    using enc by (cases "selectedFile cmp") (simp_all add: handleExport_def statuses_def)
  obtain out l where body: "exportBody cmp env fmt = (out, l)"
    by (cases "exportBody cmp env fmt")
  from exportBody_shape [OF body]
  obtain k tail where st: "statuses (trace l) = Initializing # replicate k Sampling @ tail"
      "tail \<noteq> [] \<longrightarrow> 0 < k"
      "(tail = [] \<and> ((\<exists>e. out = Threw e) \<or> out = Hung)) \<or>
       (tail = [Encoding] \<and> (\<exists>e. execThrows env = Some e \<and> out = Threw e)) \<or>
       (tail = [Encoding, Delivering] \<and> execThrows env = None \<and>
          (\<exists>e. readThrows env = Some e \<and> out = Threw e)) \<or>
       (tail = [Encoding, Delivering, Done] \<and> execThrows env = None \<and>
          readThrows env = None \<and> out = Returned)"
    by blast
  have nh: "out \<noteq> Hung"
  proof
    assume hung: "out = Hung"
    have "handleExport cmp env fmt = l"
      using body hung by (intro handleExport_hung [OF sel]) simp
    moreover have "tail = []" using st(3) hung by auto
    ultimately show False using enc st(1) by auto
  qed
  have run: "handleExport cmp env fmt
               = finallyBlock env (case out of Threw e \<Rightarrow> catchBlock fmt e l | _ \<Rightarrow> l)"
    by (rule handleExport_run [OF sel body nh])
  have threw: "\<exists>x. out = Threw x" using st(3) thrown nh by auto
  then obtain x where x: "out = Threw x" by blast
  have all: "statuses (trace (handleExport cmp env fmt)) = Initializing # replicate k Sampling @ tail @ [Error]"
    unfolding run x using st(1)
    by (simp add: statuses_def finallyBlock_exportStates catchBlock_fields)
  have "tail \<noteq> []"
  proof
    assume "tail = []"
    with all enc show False by auto
  qed
  with st(3) thrown have tail: "tail = [Encoding]" and out: "out = Threw e" by auto
  with st(2) obtain k' where k: "k = Suc k'" by (cases k) auto
  have 1: "statuses (trace (handleExport cmp env fmt))
             = Initializing # replicate (Suc k') Sampling @ [Encoding, Error]"
    using all tail k by simp
  have 2: "last (exportStates (trace (handleExport cmp env fmt)))
             = \<lparr>status = Error, format = Some fmt, progress = 0, message = Some (errorMessageFor e)\<rparr>"
    unfolding run out by (simp add: finallyBlock_exportStates catchBlock_fields)
  show ?thesis
    using 2 unfolding 1 by auto
qed

theorem encoding_failure_transitions_witness:
  "Encoding \<in> set (statuses (trace (handleExport exampleComponent failingEncoderBrowser mp4))) \<and>
   execThrows failingEncoderBrowser = Some (JsError ''FFmpeg exited with code 1'') \<and>
   (\<exists>k. statuses (trace (handleExport exampleComponent failingEncoderBrowser mp4))
           = Initializing # replicate (Suc k) Sampling @ [Encoding, Error]) \<and>
   Delivering \<notin> set (statuses (trace (handleExport exampleComponent failingEncoderBrowser mp4))) \<and>
   Done \<notin> set (statuses (trace (handleExport exampleComponent failingEncoderBrowser mp4))) \<and>
   last (exportStates (trace (handleExport exampleComponent failingEncoderBrowser mp4)))
     = \<lparr>status = Error, format = Some mp4, progress = 0,
        message = Some ''Video encoding failed. Please try again or use a different format.''\<rparr>"
proof -
  have reach: "Encoding \<in> set (statuses (trace (handleExport exampleComponent failingEncoderBrowser mp4)))"
    by (rule reaches_encoding [where sv = exampleVideo and d = 2
                                 and pv = "exampleVideo\<lparr>currentTime := 0, paused := True\<rparr>"])
       (simp_all add: exampleComponent_def failingEncoderBrowser_def exampleBrowser_def
                      exampleVideo_def primeVideo_def)
  have thrown: "execThrows failingEncoderBrowser = Some (JsError ''FFmpeg exited with code 1'')"
    by (simp add: failingEncoderBrowser_def)
  have msg: "errorMessageFor (JsError ''FFmpeg exited with code 1'')
               = ''Video encoding failed. Please try again or use a different format.''"
    by (simp add: errorMessageFor_def)
  show ?thesis
    using encoding_failure_transitions [OF reach thrown] reach thrown
    unfolding msg by blast
qed

text \<open>
  C2. Frame count. No run computes a frame count above the cap of its tier, 300 on the
  free tier and 600 on the premium tier, however long the source. A run that gets to
  the frame count (a file is selected, the encoder loads, the metadata give a duration
  \<open>d > 0\<close>, and the priming of the sampling element returns) computes
  \<open>min(ceil(d * fps), cap)\<close>, with 10 fps on the free tier and 24 fps on the premium
  tier, the product being the product of doubles. Where the ideal count exceeds the
  cap, the truncation notice is reported and the job goes on: if nothing else fails it
  ends in the done state.
\<close>

theorem frame_count_capped:
  "totalFrames (handleExport cmp env fmt) \<le> (case entitlement cmp of free \<Rightarrow> 300 | premium \<Rightarrow> 600) \<and>
   fps (tierConfig cmp) = (case entitlement cmp of free \<Rightarrow> 10 | premium \<Rightarrow> 24) \<and>
   (selectedFile cmp \<and> (ffmpegRef cmp \<or> \<not> loadFails env) \<and>
    metadata env = Some sv \<and> duration sv = Num d \<and> 0 < d \<and>
    (priming env = PrimePlayed \<or> priming env = PrimeCaught) \<and>
    (hasCurrentData env \<or> canplayFires env) \<longrightarrow>
      totalFrames (handleExport cmp env fmt)
        = min (nat \<lceil>fl (d * real (fps (tierConfig cmp)))\<rceil>)
              (case entitlement cmp of free \<Rightarrow> 300 | premium \<Rightarrow> 600) \<and>
      ((case entitlement cmp of free \<Rightarrow> 300 | premium \<Rightarrow> 600) < nat \<lceil>fl (d * real (fps (tierConfig cmp)))\<rceil> \<longrightarrow>
         \<lparr>status = Sampling, format = Some fmt, progress = fl 0.1,
          message = Some (''Video truncated to '' @ showNat (totalFrames (handleExport cmp env fmt))
                          @ '' frames for faster processing'')\<rparr>
           \<in> set (exportStates (trace (handleExport cmp env fmt))) \<and>
         (exportContext env \<and> (\<forall>i. \<not> pngFails env i \<and> \<not> writeFails env i) \<and>
          execThrows env = None \<and> readThrows env = None \<longrightarrow>
            last (statuses (trace (handleExport cmp env fmt))) = Done)))"
proof -
  let ?cap = "case entitlement cmp of free \<Rightarrow> 300 | premium \<Rightarrow> (600::nat)"
  let ?ideal = "nat \<lceil>fl (d * real (fps (tierConfig cmp)))\<rceil>"
  have capped: "totalFrames (handleExport cmp env fmt) \<le> ?cap"
  proof (cases "selectedFile cmp")
    case False
    then show ?thesis by (simp add: handleExport_def)
  next
    case True
    obtain out l where body: "exportBody cmp env fmt = (out, l)"
      by (cases "exportBody cmp env fmt")
    have le: "totalFrames l \<le> ?cap"
      using exportBody_shape [OF body] by (simp add: tier_policy(2))
    show ?thesis
    proof (cases "out = Hung")
      case hung: True
      have "handleExport cmp env fmt = l"
        using body hung by (intro handleExport_hung [OF True]) simp
      with le show ?thesis by simp
    next
      case False
      have "totalFrames (handleExport cmp env fmt) = totalFrames l"
        unfolding handleExport_run [OF True body False]
        by (cases out) (simp_all add: finallyBlock_fields catchBlock_fields)
      with le show ?thesis by simp
    qed
  qed
  have computed: "totalFrames (handleExport cmp env fmt) = min ?ideal ?cap \<and>
      (?cap < ?ideal \<longrightarrow>
         \<lparr>status = Sampling, format = Some fmt, progress = fl 0.1,
          message = Some (''Video truncated to '' @ showNat (totalFrames (handleExport cmp env fmt))
                          @ '' frames for faster processing'')\<rparr>
           \<in> set (exportStates (trace (handleExport cmp env fmt))) \<and>
         (exportContext env \<and> (\<forall>i. \<not> pngFails env i \<and> \<not> writeFails env i) \<and>
          execThrows env = None \<and> readThrows env = None \<longrightarrow>
            last (statuses (trace (handleExport cmp env fmt))) = Done))"
    if sel: "selectedFile cmp" and enc: "ffmpegRef cmp \<or> \<not> loadFails env"
      and meta: "metadata env = Some sv" and dur: "duration sv = Num d" and pos: "0 < d"
      and primed: "priming env = PrimePlayed \<or> priming env = PrimeCaught"
      and ready: "hasCurrentData env \<or> canplayFires env"
  proof -
    let ?l1 = "\<lparr>trace = [SetExportState \<lparr>status = Initializing, format = Some fmt, progress = fl 0.05,
                                        message = Some ''Loading encoder''\<rparr>,
                        SetExportState \<lparr>status = Sampling, format = Some fmt, progress = fl 0.1,
                                        message = Some ''Sampling frames''\<rparr>],
              totalFrames = 0, outputName = None, objectUrl = True, ffmpegCurrent = True\<rparr>"
    obtain pv where prime: "primeVideo env sv = (Returned, pv)"
      using primeVideo_returns [OF primed ready] by blast
    obtain out l where sp: "samplePhase cmp env fmt pv d ?l1 = (out, l)"
      by (cases "samplePhase cmp env fmt pv d ?l1")
    define l2 where "l2 = (case out of Threw e \<Rightarrow> catchBlock fmt e l | _ \<Rightarrow> l)"
    have run: "handleExport cmp env fmt = finallyBlock env l2"
      unfolding l2_def by (rule handleExport_sampling [OF sel enc meta dur pos prime sp])
    note P = samplePhase_shape(1) [OF sp]
    have tf_l: "totalFrames l = min ?ideal ?cap"
      using P by (simp add: tier_policy(2))
    have tf_l2: "totalFrames l2 = totalFrames l"
      unfolding l2_def by (cases out) (simp_all add: catchBlock_fields)
    have tf: "totalFrames (handleExport cmp env fmt) = min ?ideal ?cap"
      unfolding run by (simp add: finallyBlock_fields tf_l2 tf_l)
    have states: "set (exportStates (trace l)) \<subseteq> set (exportStates (trace (handleExport cmp env fmt)))"
      unfolding run l2_def
      by (cases out) (auto simp add: finallyBlock_exportStates catchBlock_fields)
    have notice: "\<lparr>status = Sampling, format = Some fmt, progress = fl 0.1,
               message = Some (''Video truncated to '' @ showNat (totalFrames (handleExport cmp env fmt))
                               @ '' frames for faster processing'')\<rparr>
                \<in> set (exportStates (trace (handleExport cmp env fmt)))"
      if trunc: "?cap < ?ideal"
    proof -
      have same: "totalFrames (handleExport cmp env fmt) = totalFrames l"
        using tf tf_l by simp
      have lt: "totalFrames l < ?ideal" using tf_l trunc by simp
      obtain ext where ext: "trace l = trace ?l1 @ ext"
          "SetExportState
                   \<lparr>status = Sampling, format = Some fmt, progress = fl 0.1,
                    message = Some (''Video truncated to '' @ showNat (totalFrames l)
                                    @ '' frames for faster processing'')\<rparr> \<in> set ext"
        using P lt by blast
      have "SetExportState
                   \<lparr>status = Sampling, format = Some fmt, progress = fl 0.1,
                    message = Some (''Video truncated to '' @ showNat (totalFrames l)
                                    @ '' frames for faster processing'')\<rparr> \<in> set (trace l)"
        using ext by simp
      then show ?thesis
        unfolding same using states exportStates_member by blast
    qed
    have finished: "last (statuses (trace (handleExport cmp env fmt))) = Done"
      if ok: "exportContext env \<and> (\<forall>i. \<not> pngFails env i \<and> \<not> writeFails env i) \<and>
               execThrows env = None \<and> readThrows env = None"
    proof -
      have ret: "out = Returned"
        using ok pos by (intro samplePhase_shape(2) [OF sp]) simp_all
      obtain ext k tail where shape: "trace l = trace ?l1 @ ext" "statuses ext = replicate k Sampling @ tail"
              "(tail = [] \<and> (\<exists>e. out = Threw e)) \<or>
       (tail = [Encoding] \<and> (\<exists>e. execThrows env = Some e \<and> out = Threw e)) \<or>
       (tail = [Encoding, Delivering] \<and> execThrows env = None \<and>
          (\<exists>e. readThrows env = Some e \<and> out = Threw e)) \<or>
       (tail = [Encoding, Delivering, Done] \<and> execThrows env = None \<and>
          readThrows env = None \<and> out = Returned)"
        using P by blast
      have tail: "tail = [Encoding, Delivering, Done]" using shape(3) ret by auto
      have "last (statuses (trace l)) = Done"
        unfolding shape(1) statuses_append shape(2) tail by simp
      moreover have "handleExport cmp env fmt = finallyBlock env l"
        unfolding run l2_def ret by simp
      ultimately show ?thesis
        by (simp add: statuses_def finallyBlock_exportStates)
    qed
    show ?thesis
      using tf notice finished by blast
  qed
  from capped computed tier_policy(1) [of cmp] show ?thesis by blast
qed

theorem frame_count_capped_witness:
  "selectedFile exampleComponent \<and>
   (ffmpegRef exampleComponent \<or> \<not> loadFails longSourceBrowser) \<and>
   metadata longSourceBrowser = Some (exampleVideo\<lparr>duration := Num 120\<rparr>) \<and>
   duration (exampleVideo\<lparr>duration := Num 120\<rparr>) = Num 120 \<and> (0::real) < 120 \<and>
   (priming longSourceBrowser = PrimePlayed \<or> priming longSourceBrowser = PrimeCaught) \<and>
   (hasCurrentData longSourceBrowser \<or> canplayFires longSourceBrowser) \<and>
   totalFrames (handleExport exampleComponent longSourceBrowser mp4) = 300 \<and>
   \<lparr>status = Sampling, format = Some mp4, progress = fl 0.1,
    message = Some ''Video truncated to 300 frames for faster processing''\<rparr>
     \<in> set (exportStates (trace (handleExport exampleComponent longSourceBrowser mp4))) \<and>
   last (statuses (trace (handleExport exampleComponent longSourceBrowser mp4))) = Done \<and>
   metadata shortSourceBrowser = Some (exampleVideo\<lparr>duration := Num (fl 0.1)\<rparr>) \<and>
   0 < fl 0.1 \<and> nat \<lceil>fl 0.1 * 10\<rceil> = 2 \<and>
   totalFrames (handleExport exampleComponent shortSourceBrowser mp4) = 1"
proof -
  have f0: "fl (1 / 10) = 3602879701896397 / 36028797018963968"
    by (subst fl_scaled [where p = 56]) (simp_all add: rne_def)
  have f1: "fl (18014398509481985 / 18014398509481984) = 1"
    by (subst fl_scaled [where p = 52]) (simp_all add: rne_def)
  have f2: "fl (20) = 20"
    by (subst fl_scaled [where p = 48]) (simp_all add: rne_def)
  have f3: "fl (1200) = 1200"
    by (subst fl_scaled [where p = 42]) (simp_all add: rne_def)
  have hyps: "selectedFile exampleComponent"
    "ffmpegRef exampleComponent \<or> \<not> loadFails longSourceBrowser"
    "metadata longSourceBrowser = Some (exampleVideo\<lparr>duration := Num 120\<rparr>)"
    "duration (exampleVideo\<lparr>duration := Num 120\<rparr>) = Num 120" "(0::real) < 120"
    "priming longSourceBrowser = PrimePlayed \<or> priming longSourceBrowser = PrimeCaught"
    "hasCurrentData longSourceBrowser \<or> canplayFires longSourceBrowser"
    by (simp_all add: exampleComponent_def longSourceBrowser_def exampleBrowser_def)
  have hyps': "ffmpegRef exampleComponent \<or> \<not> loadFails shortSourceBrowser"
    "metadata shortSourceBrowser = Some (exampleVideo\<lparr>duration := Num (fl 0.1)\<rparr>)"
    "duration (exampleVideo\<lparr>duration := Num (fl 0.1)\<rparr>) = Num (fl 0.1)" "0 < fl 0.1"
    "priming shortSourceBrowser = PrimePlayed \<or> priming shortSourceBrowser = PrimeCaught"
    "hasCurrentData shortSourceBrowser \<or> canplayFires shortSourceBrowser"
    by (simp_all add: exampleComponent_def shortSourceBrowser_def exampleBrowser_def f0 f1 f2 f3)
  have tier: "entitlement exampleComponent = free" by (simp add: exampleComponent_def)
  have ok: "exportContext longSourceBrowser \<and>
            (\<forall>i. \<not> pngFails longSourceBrowser i \<and> \<not> writeFails longSourceBrowser i) \<and>
            execThrows longSourceBrowser = None \<and> readThrows longSourceBrowser = None"
    by (simp add: longSourceBrowser_def exampleBrowser_def)
  have digits: "showNat 300 = ''300''" by simp
  have ideal: "nat \<lceil>fl (120 * real (fps (tierConfig exampleComponent)))\<rceil> = 1200"
    "nat \<lceil>fl (fl 0.1 * real (fps (tierConfig exampleComponent)))\<rceil> = 1"
    "nat \<lceil>fl 0.1 * 10\<rceil> = (2::nat)"
    by (simp_all add: tier_policy(1) tier f0 f1 f2 f3)
  note long = frame_count_capped
    [of exampleComponent longSourceBrowser mp4 "exampleVideo\<lparr>duration := Num 120\<rparr>" 120]
  note short = frame_count_capped
    [of exampleComponent shortSourceBrowser mp4 "exampleVideo\<lparr>duration := Num (fl 0.1)\<rparr>" "fl 0.1"]
  have count: "totalFrames (handleExport exampleComponent longSourceBrowser mp4) = 300"
    using long hyps by (simp add: tier ideal(1))
  have count': "totalFrames (handleExport exampleComponent shortSourceBrowser mp4) = 1"
    using short hyps(1) hyps' by (simp add: tier ideal(2))
  have rest: "\<lparr>status = Sampling, format = Some mp4, progress = fl 0.1,
      message = Some ''Video truncated to 300 frames for faster processing''\<rparr>
       \<in> set (exportStates (trace (handleExport exampleComponent longSourceBrowser mp4))) \<and>
     last (statuses (trace (handleExport exampleComponent longSourceBrowser mp4))) = Done"
    using long hyps ok unfolding count digits by (simp add: tier ideal(1))
  show ?thesis
    using hyps hyps'(2,4) count count' rest ideal(3) by blast
qed

text \<open>
  C3. Where every sampling instant is skipped, because every seek request throws or
  because the rasterizer yields nothing, the run of the two-second example writes no
  frame, raises no error and goes on to encode and deliver: the test before the
  encoding phase reads the planned frame count, which is 20, not the number of frames
  captured.
\<close>

theorem all_instants_skipped_still_encodes:
  "written (trace (handleExport exampleComponent seeksThrowBrowser mp4)) = [] \<and>
   statuses (trace (handleExport exampleComponent seeksThrowBrowser mp4))
     = [Initializing, Sampling, Encoding, Delivering, Done] \<and>
   totalFrames (handleExport exampleComponent seeksThrowBrowser mp4) = 20 \<and>
   written (trace (handleExport exampleComponent noContextBrowser mp4)) = [] \<and>
   statuses (trace (handleExport exampleComponent noContextBrowser mp4))
     = [Initializing, Sampling, Encoding, Delivering, Done] \<and>
   totalFrames (handleExport exampleComponent noContextBrowser mp4) = 20"
proof -
  let ?l1 = "\<lparr>trace = [SetExportState \<lparr>status = Initializing, format = Some mp4, progress = fl 0.05,
                                        message = Some ''Loading encoder''\<rparr>,
                        SetExportState \<lparr>status = Sampling, format = Some mp4, progress = fl 0.1,
                                        message = Some ''Sampling frames''\<rparr>],
              totalFrames = 0, outputName = None, objectUrl = True, ffmpegCurrent = True\<rparr>"
  let ?pv = "exampleVideo\<lparr>currentTime := 0, paused := True\<rparr>"
  have f0: "fl (1 / 10) = 3602879701896397 / 36028797018963968"
    by (subst fl_scaled [where p = 56]) (simp_all add: rne_def)
  have f1: "fl (18014398509481985 / 18014398509481984) = 1"
    by (subst fl_scaled [where p = 52]) (simp_all add: rne_def)
  have f2: "fl (20) = 20"
    by (subst fl_scaled [where p = 48]) (simp_all add: rne_def)
  have f3: "fl (1200) = 1200"
    by (subst fl_scaled [where p = 42]) (simp_all add: rne_def)
  have tier: "fps (tierConfig exampleComponent) = 10" "isFreeTier exampleComponent"
    by (simp_all add: tier_policy(1) isFreeTier_def exampleComponent_def)
  have ideal: "nat \<lceil>fl (2 * real (10::nat))\<rceil> = 20" by (simp add: f0 f1 f2 f3)
  have seeks: "written (trace (handleExport exampleComponent seeksThrowBrowser mp4)) = [] \<and>
     statuses (trace (handleExport exampleComponent seeksThrowBrowser mp4))
       = [Initializing, Sampling, Encoding, Delivering, Done] \<and>
     totalFrames (handleExport exampleComponent seeksThrowBrowser mp4) = 20"
  proof -
    have skip: "sampleFrames exampleComponent seeksThrowBrowser mp4 dur stp n idxs (v, c, tr) = (Returned, tr)"
      for dur stp n idxs v c tr
      by (rule sampleFrames_all_seeks_throw) (simp add: seeksThrowBrowser_def)
    have env: "exportContext seeksThrowBrowser" "execThrows seeksThrowBrowser = None"
      "readThrows seeksThrowBrowser = None"
      by (simp_all add: seeksThrowBrowser_def exampleBrowser_def)
    have prime: "primeVideo seeksThrowBrowser exampleVideo = (Returned, ?pv)"
      by (simp add: primeVideo_def seeksThrowBrowser_def exampleBrowser_def)
    obtain out l where sp: "samplePhase exampleComponent seeksThrowBrowser mp4 ?pv 2 ?l1 = (out, l)"
      by (cases "samplePhase exampleComponent seeksThrowBrowser mp4 ?pv 2 ?l1")
    have res: "out = Returned \<and> written (trace l) = [] \<and>
               statuses (trace l) = [Initializing, Sampling, Encoding, Delivering, Done] \<and>
               totalFrames l = 20"
      using sp unfolding samplePhase_def Let_def skip env tier ideal
      by (auto simp add: encodeAndDeliver_def Let_def statuses_def env)
    have run: "handleExport exampleComponent seeksThrowBrowser mp4 = finallyBlock seeksThrowBrowser l"
      using handleExport_sampling [where sv = exampleVideo and d = 2, OF _ _ _ _ _ prime sp] res
      by (simp add: exampleComponent_def seeksThrowBrowser_def exampleBrowser_def exampleVideo_def)
    show ?thesis
      unfolding run using res
      by (simp add: finallyBlock_written finallyBlock_fields statuses_def finallyBlock_exportStates)
  qed
  have raster: "written (trace (handleExport exampleComponent noContextBrowser mp4)) = [] \<and>
     statuses (trace (handleExport exampleComponent noContextBrowser mp4))
       = [Initializing, Sampling, Encoding, Delivering, Done] \<and>
     totalFrames (handleExport exampleComponent noContextBrowser mp4) = 20"
  proof -
    have env: "exportContext noContextBrowser" "execThrows noContextBrowser = None"
      "readThrows noContextBrowser = None" "bufferContext noContextBrowser = False"
      by (simp_all add: noContextBrowser_def exampleBrowser_def)
    have skip: "sampleFrames exampleComponent noContextBrowser mp4 dur stp n idxs
                  (v, \<lparr>hasContext = False, canvasWidth = 300, canvasHeight = 150, pixels = (\<lambda>_. 0)\<rparr>, tr)
                = (Returned, tr)"
      for dur stp n idxs v tr
      by (rule sampleFrames_no_context) simp
    have prime: "primeVideo noContextBrowser exampleVideo = (Returned, ?pv)"
      by (simp add: primeVideo_def noContextBrowser_def exampleBrowser_def)
    obtain out l where sp: "samplePhase exampleComponent noContextBrowser mp4 ?pv 2 ?l1 = (out, l)"
      by (cases "samplePhase exampleComponent noContextBrowser mp4 ?pv 2 ?l1")
    have res: "out = Returned \<and> written (trace l) = [] \<and>
               statuses (trace l) = [Initializing, Sampling, Encoding, Delivering, Done] \<and>
               totalFrames l = 20"
      using sp unfolding samplePhase_def Let_def env tier skip ideal
      by (auto simp add: encodeAndDeliver_def Let_def statuses_def env)
    have run: "handleExport exampleComponent noContextBrowser mp4 = finallyBlock noContextBrowser l"
      using handleExport_sampling [where sv = exampleVideo and d = 2, OF _ _ _ _ _ prime sp] res
      by (simp add: exampleComponent_def noContextBrowser_def exampleBrowser_def exampleVideo_def)
    show ?thesis
      unfolding run using res
      by (simp add: finallyBlock_written finallyBlock_fields statuses_def finallyBlock_exportStates)
  qed
  show ?thesis
    using seeks raster by (intro conjI) simp_all
qed

end
